theory Spec2Isabelle
  imports Complex_Main "HOL-Library.Log_Nat"
begin

section \<open>Plots.py: simulated respondent table and its three plots\<close>

text \<open>
  The script \<^verbatim>\<open>src/Plots.py\<close> runs top to bottom: it seeds NumPy's global generator,
  draws nine arrays, builds a pandas data frame from seven of them and hands the frame
  to three seaborn plotting calls. The libraries are not part of the repository, so
  \<^item> the generator is a parameter (a record of samplers over some state type) and every
    theorem that needs a property of it names that property as a hypothesis;
  \<^item> the arithmetic of \<^verbatim>\<open>float64\<close> arrays is written out (IEEE 754 binary64, round to
    nearest, ties to even), because lines 17 and 23--28 of the script are float arithmetic;
  \<^item> the plotting calls are modelled by what the script hands them: the columns they
    select by name from the frame, and a parameter for what the library raises at its
    seaborn and pyplot calls.
\<close>

subsection \<open>binary64 values and their arithmetic\<close>

text \<open>
  A \<^verbatim>\<open>float64\<close> is a finite value (a rational; \<open>Fin 0\<close> is \<open>+0.0\<close>), the negative
  zero, an infinity or a NaN. A finite result is the exact rational result rounded to the
  nearest value \<open>m * 2^e\<close> with \<open>\<bar>m\<bar> \<le> 2^53\<close> and \<open>e \<ge> -1074\<close>, ties going to the even
  \<open>m\<close>; a rounded magnitude above the largest finite value overflows to an infinity.
\<close>

datatype float64 = Fin rat | NZero | PInf | NInf | NaN

definition ilog2 :: "rat \<Rightarrow> int" where
  \<comment> \<open>\<open>\<lfloor>log\<^sub>2 q\<rfloor>\<close> for a positive rational, from the bit lengths of numerator and denominator\<close>
  "ilog2 q = (let (a, b) = quotient_of q; k = bitlen a - bitlen b
              in if 2 powi k \<le> q then k else k - 1)"

definition round_even :: "rat \<Rightarrow> int" where
  "round_even x = (let f = \<lfloor>x\<rfloor>; d = x - of_int f
                   in if d < 1/2 then f else if 1/2 < d then f + 1
                      else if even f then f else f + 1)"

definition ulp_exp :: "rat \<Rightarrow> int" where
  \<comment> \<open>exponent of the last place: 53 significant bits, subnormals below \<open>2^-1022\<close>\<close>
  "ulp_exp q = max (ilog2 \<bar>q\<bar> - 52) (- 1074)"

definition rnd :: "rat \<Rightarrow> rat" where
  "rnd q = (if q = 0 then 0
            else of_int (round_even (q / 2 powi ulp_exp q)) * 2 powi ulp_exp q)"

definition max_float :: rat where
  "max_float = (2 ^ 53 - 1) * 2 ^ 971"

definition fround :: "rat \<Rightarrow> float64" where
  "fround q = (let r = rnd q
               in if max_float < r then PInf
                  else if r < - max_float then NInf
                  else if r = 0 \<and> q < 0 then NZero
                  else Fin r)"

fun is_finite :: "float64 \<Rightarrow> bool" where
  "is_finite (Fin q) = True"
| "is_finite NZero = True"
| "is_finite _ = False"

fun is_inf :: "float64 \<Rightarrow> bool" where
  "is_inf PInf = True"
| "is_inf NInf = True"
| "is_inf _ = False"

fun fval :: "float64 \<Rightarrow> rat" where
  \<comment> \<open>the value of a finite float; not used on the others\<close>
  "fval (Fin q) = q"
| "fval _ = 0"

fun fsign :: "float64 \<Rightarrow> bool" where
  \<comment> \<open>the sign bit\<close>
  "fsign (Fin q) = (q < 0)"
| "fsign NZero = True"
| "fsign NInf = True"
| "fsign _ = False"

definition fneg :: "float64 \<Rightarrow> float64" where
  "fneg x = (case x of Fin q \<Rightarrow> (if q = 0 then NZero else Fin (- q))
             | NZero \<Rightarrow> Fin 0 | PInf \<Rightarrow> NInf | NInf \<Rightarrow> PInf | NaN \<Rightarrow> NaN)"

definition fadd :: "float64 \<Rightarrow> float64 \<Rightarrow> float64" where
  "fadd x y =
     (if x = NaN \<or> y = NaN then NaN
      else if is_inf x then (if is_inf y \<and> y \<noteq> x then NaN else x)
      else if is_inf y then y
      else if x = NZero \<and> y = NZero then NZero
      else if fval x + fval y = 0 then Fin 0
      else fround (fval x + fval y))"

definition fmul :: "float64 \<Rightarrow> float64 \<Rightarrow> float64" where
  "fmul x y =
     (if x = NaN \<or> y = NaN then NaN
      else if is_inf x \<or> is_inf y then
        (if (is_finite x \<and> fval x = 0) \<or> (is_finite y \<and> fval y = 0) then NaN
         else if fsign x \<noteq> fsign y then NInf else PInf)
      else if fval x * fval y = 0 then (if fsign x \<noteq> fsign y then NZero else Fin 0)
      else fround (fval x * fval y))"

definition fof_int :: "int \<Rightarrow> float64" where
  \<comment> \<open>conversion of an \<^verbatim>\<open>int64\<close> element to \<^verbatim>\<open>float64\<close>\<close>
  "fof_int i = fround (of_int i)"

definition float_lit :: "rat \<Rightarrow> float64" where
  \<comment> \<open>a decimal literal of the source denotes the nearest binary64 value\<close>
  "float_lit q = fround q"

definition fle :: "float64 \<Rightarrow> float64 \<Rightarrow> bool" where
  \<comment> \<open>\<^verbatim>\<open><=\<close> on floats: false when a NaN is involved, the two zeros equal\<close>
  "fle x y = (x \<noteq> NaN \<and> y \<noteq> NaN \<and>
              (x = NInf \<or> y = PInf \<or> (is_finite x \<and> is_finite y \<and> fval x \<le> fval y)))"

definition flt :: "float64 \<Rightarrow> float64 \<Rightarrow> bool" where
  "flt x y = (fle x y \<and> \<not> fle y x)"

definition finite_float64 :: "float64 \<Rightarrow> bool" where
  \<comment> \<open>a finite value of the format: rounding leaves it as it is\<close>
  "finite_float64 x = (case x of Fin q \<Rightarrow> fround q = Fin q | NZero \<Rightarrow> True | _ \<Rightarrow> False)"

subsection \<open>Errors\<close>

datatype error = ValueError | KeyError | RenderFault

definition on_ok :: "error + 'a \<Rightarrow> ('a \<Rightarrow> error + 'b) \<Rightarrow> error + 'b" where
  \<comment> \<open>an uncaught exception ends the script: the rest is not run\<close>
  "on_ok r f = (case r of Inl e \<Rightarrow> Inl e | Inr v \<Rightarrow> f v)"

subsection \<open>NumPy: the global generator and array arithmetic\<close>

text \<open>
  \<^verbatim>\<open>np.random\<close> is a library. Its legacy global generator is a state of some type \<open>'s\<close>
  with the four operations the script calls. A sampler called with \<^verbatim>\<open>size=k\<close> returns
  the array drawn and the generator state left behind, or raises \<^verbatim>\<open>ValueError\<close> on
  parameters it rejects.
\<close>

record 's np_random =
  seed :: "nat \<Rightarrow> 's"
  randint :: "int \<Rightarrow> int \<Rightarrow> nat \<Rightarrow> 's \<Rightarrow> error + (int list \<times> 's)"
  normal :: "float64 \<Rightarrow> float64 \<Rightarrow> nat \<Rightarrow> 's \<Rightarrow> error + (float64 list \<times> 's)"
  binomial :: "int \<Rightarrow> float64 \<Rightarrow> nat \<Rightarrow> 's \<Rightarrow> error + (int list \<times> 's)"

definition np_random_ok :: "'s np_random \<Rightarrow> bool" where
  \<comment> \<open>what NumPy documents, on the arguments NumPy accepts (bounds within
      \<^verbatim>\<open>int64\<close>, a finite scale with the sign bit clear, a probability):
      \<^verbatim>\<open>randint(low, high)\<close> draws from \<open>[low, high)\<close>, \<^verbatim>\<open>binomial(k, p)\<close> from \<open>[0, k]\<close>,
      each array has \<^verbatim>\<open>size\<close> elements\<close>
  "np_random_ok R =
     ((\<forall>lo hi k s. lo < hi \<and> - (2 ^ 63) \<le> lo \<and> hi \<le> 2 ^ 63 \<longrightarrow>
         (\<exists>xs s'. randint R lo hi k s = Inr (xs, s') \<and> length xs = k \<and>
                  (\<forall>x \<in> set xs. lo \<le> x \<and> x < hi))) \<and>
      (\<forall>loc scale k s. is_finite loc \<and> is_finite scale \<and> \<not> fsign scale \<longrightarrow>
         (\<exists>ys s'. normal R loc scale k s = Inr (ys, s') \<and> length ys = k)) \<and>
      (\<forall>m p k s. 0 \<le> m \<and> m < 2 ^ 63 \<and> fle (Fin 0) p \<and> fle p (Fin 1) \<longrightarrow>
         (\<exists>xs s'. binomial R m p k s = Inr (xs, s') \<and> length xs = k \<and>
                  (\<forall>x \<in> set xs. 0 \<le> x \<and> x \<le> m))))"

definition scalar_mul :: "float64 \<Rightarrow> float64 list \<Rightarrow> float64 list" where
  \<comment> \<open>Python float \<^verbatim>\<open>*\<close> \<^verbatim>\<open>float64\<close> array\<close>
  "scalar_mul c xs = map (fmul c) xs"

definition scalar_mul_int :: "float64 \<Rightarrow> int list \<Rightarrow> float64 list" where
  \<comment> \<open>Python float \<^verbatim>\<open>*\<close> \<^verbatim>\<open>int64\<close> array: the elements are converted first\<close>
  "scalar_mul_int c xs = map (\<lambda>i. fmul c (fof_int i)) xs"

definition array_add :: "float64 list \<Rightarrow> float64 list \<Rightarrow> error + float64 list" where
  \<comment> \<open>\<^verbatim>\<open>+\<close> on one-dimensional arrays: equal shapes elementwise, a length-1 array is
      broadcast, anything else raises\<close>
  "array_add xs ys =
     (if length xs = length ys then Inr (map2 fadd xs ys)
      else if length xs = 1 then Inr (map (fadd (hd xs)) ys)
      else if length ys = 1 then Inr (map (\<lambda>x. fadd x (hd ys)) xs)
      else Inl ValueError)"

subsection \<open>pandas: the data frame\<close>

datatype column = IntCol "int list" | FloatCol "float64 list"

fun col_len :: "column \<Rightarrow> nat" where
  "col_len (IntCol xs) = length xs"
| "col_len (FloatCol xs) = length xs"

type_synonym dataframe = "(string \<times> column) list"

definition DataFrame :: "(string \<times> column) list \<Rightarrow> error + dataframe" where
  \<comment> \<open>\<^verbatim>\<open>pd.DataFrame(dict)\<close>: the columns in the order of the dict (its keys are
      distinct in the script); arrays of different lengths raise\<close>
  "DataFrame d =
     (if list_all (\<lambda>kc. col_len (snd kc) = col_len (snd (hd d))) d then Inr d
      else Inl ValueError)"

definition columns :: "dataframe \<Rightarrow> string list" where
  "columns frame = map fst frame"

definition shape :: "dataframe \<Rightarrow> nat \<times> nat" where
  \<comment> \<open>(rows, columns)\<close>
  "shape frame = ((case frame of [] \<Rightarrow> 0 | kc # _ \<Rightarrow> col_len (snd kc)), length frame)"

definition getitem :: "dataframe \<Rightarrow> string \<Rightarrow> error + column" where
  \<comment> \<open>\<^verbatim>\<open>frame[name]\<close>\<close>
  "getitem frame name = (case map_of frame name of None \<Rightarrow> Inl KeyError | Some c \<Rightarrow> Inr c)"

subsection \<open>The Data Simulator (lines 7--39)\<close>

definition seed_value :: nat where
  "seed_value = 42"

definition n_rows :: nat where
  \<comment> \<open>the script's \<^verbatim>\<open>n\<close>\<close>
  "n_rows = 1000"

record sim_vars =
  EDUCP_A :: "int list"
  POVRATTC_A :: "float64 list"
  DIBEV_A :: "int list"
  HYPEV_A :: "int list"
  ObjectiveHealth :: "float64 list"
  PHSTAT_A :: "int list"
  PHQCAT_A :: "int list"
  LSATIS4_A :: "int list"
  PerceivedHealth :: "float64 list"
  df :: dataframe

definition objective_health ::
  "int list \<Rightarrow> int list \<Rightarrow> float64 list \<Rightarrow> error + float64 list" where
  \<comment> \<open>line 17, with the third argument the array \<^verbatim>\<open>np.random.normal(0, 0.5, size=n)\<close>\<close>
  "objective_health dibev hypev noise =
     on_ok (array_add (scalar_mul_int (float_lit (48/100)) dibev)
                      (scalar_mul_int (float_lit (61/100)) hypev))
       (\<lambda>t. array_add t noise)"

definition perceived_health ::
  "float64 list \<Rightarrow> float64 list \<Rightarrow> int list \<Rightarrow> float64 list \<Rightarrow> error + float64 list" where
  \<comment> \<open>lines 23--28; \<^verbatim>\<open>-0.48 * a\<close> is \<^verbatim>\<open>(-0.48) * a\<close>, and \<^verbatim>\<open>+\<close> associates to the left\<close>
  "perceived_health obj pov educ noise =
     on_ok (array_add (scalar_mul (fneg (float_lit (48/100))) obj)
                      (scalar_mul (fneg (float_lit (28/100))) pov))
       (\<lambda>t1. on_ok (array_add t1 (scalar_mul_int (float_lit (1/100)) educ))
         (\<lambda>t2. array_add t2 noise))"

definition make_df :: "int list \<Rightarrow> float64 list \<Rightarrow> float64 list \<Rightarrow> float64 list \<Rightarrow>
    int list \<Rightarrow> int list \<Rightarrow> int list \<Rightarrow> error + dataframe" where
  \<comment> \<open>lines 31--39\<close>
  "make_df educ pov obj perc phstat phqcat lsatis =
     DataFrame
       [(''EDUCP_A'', IntCol educ),
        (''POVRATTC_A'', FloatCol pov),
        (''ObjectiveHealth'', FloatCol obj),
        (''PerceivedHealth'', FloatCol perc),
        (''PHSTAT_A'', IntCol phstat),
        (''PHQCAT_A'', IntCol phqcat),
        (''LSATIS4_A'', IntCol lsatis)]"

definition simulate :: "'s np_random \<Rightarrow> 's \<Rightarrow> error + (sim_vars \<times> 's)" where
  \<comment> \<open>\<open>s0\<close> is the state of the global generator when the script starts; line 7
      replaces it. The result is the script's variables and the generator state after
      line 39.\<close>
  "simulate R s0 =
     (let s = seed R seed_value; n = n_rows in
      on_ok (randint R 1 5 n s) (\<lambda>(educ, s1).
      on_ok (normal R (fof_int 2) (float_lit (5/10)) n s1) (\<lambda>(pov, s2).
      on_ok (binomial R 1 (float_lit (1/10)) n s2) (\<lambda>(dibev, s3).
      on_ok (binomial R 1 (float_lit (2/10)) n s3) (\<lambda>(hypev, s4).
      on_ok (normal R (fof_int 0) (float_lit (5/10)) n s4) (\<lambda>(noise1, s5).
      on_ok (objective_health dibev hypev noise1) (\<lambda>obj.
      on_ok (randint R 1 6 n s5) (\<lambda>(phstat, s6).
      on_ok (randint R 0 4 n s6) (\<lambda>(phqcat, s7).
      on_ok (randint R 1 5 n s7) (\<lambda>(lsatis, s8).
      on_ok (normal R (fof_int 0) (float_lit (5/10)) n s8) (\<lambda>(noise2, s9).
      on_ok (perceived_health obj pov educ noise2) (\<lambda>perc.
      on_ok (make_df educ pov obj perc phstat phqcat lsatis) (\<lambda>frame.
      Inr (\<lparr>EDUCP_A = educ, POVRATTC_A = pov, DIBEV_A = dibev, HYPEV_A = hypev,
             ObjectiveHealth = obj, PHSTAT_A = phstat, PHQCAT_A = phqcat,
             LSATIS4_A = lsatis, PerceivedHealth = perc, df = frame\<rparr>, s9))))))))))))))"

subsection \<open>The Visualizer (lines 42--85)\<close>

text \<open>
  seaborn and matplotlib are libraries. A call is modelled by what the script gives it:
  a seaborn call selects the named columns from the frame (\<^verbatim>\<open>KeyError\<close> when one is
  absent) and passes them, with the styling arguments, to the library's own fitting and
  drawing; a pyplot call acts on the figures that pyplot keeps, the last one current, and
  \<^verbatim>\<open>plt.show()\<close> displays and closes them. Each of these calls can raise inside the
  library, and an exception ends the script. What the library raises, and on what, is
  not in the repository: it is the parameter \<open>L\<close>, with \<open>draw L\<close> for the two seaborn
  functions and \<open>pyplot_fault L\<close> for the pyplot functions.
\<close>

datatype plot_kind = LmPlot | RegPlot

record plot_request =
  kind :: plot_kind
  x_data :: column
  y_data :: column
  hue_data :: "column option"
  palette :: "string option"
  aspect :: "float64 option"
  alpha :: float64

record figure =
  figsize :: "(int \<times> int) option"
  drawn :: "plot_request list"
  title :: string
  xlabel :: string
  ylabel :: string
  tight :: bool

record pyplot =
  open_figures :: "figure list"
  displayed :: "figure list"

record vis_state =
  table :: dataframe
  plt :: pyplot

datatype pyplot_call =
  PltFigure "int \<times> int" | PltTitle string | PltXlabel string | PltYlabel string
  | PltTightLayout | PltShow

record plot_library =
  draw :: "plot_request \<Rightarrow> error option"
  pyplot_fault :: "pyplot_call \<Rightarrow> pyplot \<Rightarrow> error option"

definition new_figure :: "(int \<times> int) option \<Rightarrow> figure" where
  "new_figure sz = \<lparr>figsize = sz, drawn = [], title = [], xlabel = [], ylabel = [],
                     tight = False\<rparr>"

definition on_current :: "(figure \<Rightarrow> figure) \<Rightarrow> pyplot \<Rightarrow> pyplot" where
  \<comment> \<open>pyplot functions act on the current figure and open one when there is none\<close>
  "on_current f p =
     (if open_figures p = [] then p\<lparr>open_figures := [f (new_figure None)]\<rparr>
      else p\<lparr>open_figures := butlast (open_figures p) @ [f (last (open_figures p))]\<rparr>)"

definition plt_figure :: "(int \<times> int) \<Rightarrow> pyplot \<Rightarrow> pyplot" where
  "plt_figure sz p = p\<lparr>open_figures := open_figures p @ [new_figure (Some sz)]\<rparr>"

definition plt_title :: "string \<Rightarrow> pyplot \<Rightarrow> pyplot" where
  "plt_title t p = on_current (\<lambda>g. g\<lparr>title := t\<rparr>) p"

definition plt_xlabel :: "string \<Rightarrow> pyplot \<Rightarrow> pyplot" where
  "plt_xlabel t p = on_current (\<lambda>g. g\<lparr>xlabel := t\<rparr>) p"

definition plt_ylabel :: "string \<Rightarrow> pyplot \<Rightarrow> pyplot" where
  "plt_ylabel t p = on_current (\<lambda>g. g\<lparr>ylabel := t\<rparr>) p"

definition plt_tight_layout :: "pyplot \<Rightarrow> pyplot" where
  "plt_tight_layout p = on_current (\<lambda>g. g\<lparr>tight := True\<rparr>) p"

definition plt_show :: "pyplot \<Rightarrow> pyplot" where
  "plt_show p = \<lparr>open_figures = [], displayed = displayed p @ open_figures p\<rparr>"

fun plt_effect :: "pyplot_call \<Rightarrow> pyplot \<Rightarrow> pyplot" where
  \<comment> \<open>what a pyplot call does when it returns\<close>
  "plt_effect (PltFigure sz) p = plt_figure sz p"
| "plt_effect (PltTitle t) p = plt_title t p"
| "plt_effect (PltXlabel t) p = plt_xlabel t p"
| "plt_effect (PltYlabel t) p = plt_ylabel t p"
| "plt_effect PltTightLayout p = plt_tight_layout p"
| "plt_effect PltShow p = plt_show p"

definition plt_call :: "plot_library \<Rightarrow> pyplot_call \<Rightarrow> pyplot \<Rightarrow> error + pyplot" where
  \<comment> \<open>a pyplot call: the library raises, or the call has its effect\<close>
  "plt_call L c p = (case pyplot_fault L c p of Some e \<Rightarrow> Inl e | None \<Rightarrow> Inr (plt_effect c p))"

definition drawing :: "plot_library \<Rightarrow> plot_request \<Rightarrow> error + plot_request" where
  "drawing L req = (case draw L req of Some e \<Rightarrow> Inl e | None \<Rightarrow> Inr req)"

definition lmplot :: "plot_library \<Rightarrow> dataframe \<Rightarrow> string \<Rightarrow> string \<Rightarrow>
    string \<Rightarrow> string \<Rightarrow> float64 \<Rightarrow> float64 \<Rightarrow> pyplot \<Rightarrow> error + pyplot" where
  \<comment> \<open>\<^verbatim>\<open>sns.lmplot(data=, x=, y=, hue=, palette=, aspect=, scatter_kws={'alpha': })\<close>:
      a figure of its own\<close>
  "lmplot L data x y hue pal asp al p =
     on_ok (getitem data x) (\<lambda>xc.
     on_ok (getitem data y) (\<lambda>yc.
     on_ok (getitem data hue) (\<lambda>hc.
     on_ok (drawing L \<lparr>kind = LmPlot, x_data = xc, y_data = yc, hue_data = Some hc,
                       palette = Some pal, aspect = Some asp, alpha = al\<rparr>) (\<lambda>req.
     Inr (p\<lparr>open_figures := open_figures p @ [(new_figure None)\<lparr>drawn := [req]\<rparr>]\<rparr>)))))"

definition regplot :: "plot_library \<Rightarrow> dataframe \<Rightarrow> string \<Rightarrow> string \<Rightarrow>
    float64 \<Rightarrow> pyplot \<Rightarrow> error + pyplot" where
  \<comment> \<open>\<^verbatim>\<open>sns.regplot(data=, x=, y=, scatter_kws={'alpha': })\<close>: drawn on the current figure\<close>
  "regplot L data x y al p =
     on_ok (getitem data x) (\<lambda>xc.
     on_ok (getitem data y) (\<lambda>yc.
     on_ok (drawing L \<lparr>kind = RegPlot, x_data = xc, y_data = yc, hue_data = None,
                       palette = None, aspect = None, alpha = al\<rparr>) (\<lambda>req.
     Inr (on_current (\<lambda>g. g\<lparr>drawn := drawn g @ [req]\<rparr>) p))))"

definition finish_plot :: "plot_library \<Rightarrow> string \<Rightarrow> string \<Rightarrow> string \<Rightarrow> pyplot \<Rightarrow>
    error + pyplot" where
  \<comment> \<open>the five pyplot calls that end each of the three blocks, in their order:
      \<^verbatim>\<open>title\<close>, \<^verbatim>\<open>xlabel\<close>, \<^verbatim>\<open>ylabel\<close>, \<^verbatim>\<open>tight_layout\<close>, \<^verbatim>\<open>show\<close>\<close>
  "finish_plot L t xl yl p =
     on_ok (plt_call L (PltTitle t) p) (\<lambda>p1.
     on_ok (plt_call L (PltXlabel xl) p1) (\<lambda>p2.
     on_ok (plt_call L (PltYlabel yl) p2) (\<lambda>p3.
     on_ok (plt_call L PltTightLayout p3) (\<lambda>p4.
     plt_call L PltShow p4))))"

definition plot1 :: "plot_library \<Rightarrow> vis_state \<Rightarrow> error + vis_state" where
  \<comment> \<open>lines 42--55\<close>
  "plot1 L st =
     on_ok (lmplot L (table st) ''POVRATTC_A'' ''ObjectiveHealth'' ''EDUCP_A'' ''viridis''
              (float_lit (15/10)) (float_lit (3/10)) (plt st)) (\<lambda>p.
     on_ok (finish_plot L ''SES Indicators and Objective Health with Regression Lines''
              ''Poverty Ratio (POVRATTC_A)'' ''Objective Health (latent)'' p) (\<lambda>p'.
     Inr (st\<lparr>plt := p'\<rparr>)))"

definition plot2 :: "plot_library \<Rightarrow> vis_state \<Rightarrow> error + vis_state" where
  \<comment> \<open>lines 58--69\<close>
  "plot2 L st =
     on_ok (plt_call L (PltFigure (8, 5)) (plt st)) (\<lambda>p0.
     on_ok (regplot L (table st) ''ObjectiveHealth'' ''PerceivedHealth''
              (float_lit (3/10)) p0) (\<lambda>p.
     on_ok (finish_plot L ''Objective Health Predicting Perceived Health''
              ''Objective Health'' ''Perceived Health'' p) (\<lambda>p'.
     Inr (st\<lparr>plt := p'\<rparr>))))"

definition plot3 :: "plot_library \<Rightarrow> vis_state \<Rightarrow> error + vis_state" where
  \<comment> \<open>lines 72--85\<close>
  "plot3 L st =
     on_ok (lmplot L (table st) ''POVRATTC_A'' ''PerceivedHealth'' ''EDUCP_A'' ''coolwarm''
              (float_lit (15/10)) (float_lit (3/10)) (plt st)) (\<lambda>p.
     on_ok (finish_plot L ''SES Indicators and Perceived Health with Regression Lines''
              ''Poverty Ratio (POVRATTC_A)'' ''Perceived Health (latent)'' p) (\<lambda>p'.
     Inr (st\<lparr>plt := p'\<rparr>)))"

definition visualizer :: "plot_library \<Rightarrow> vis_state \<Rightarrow> error + vis_state" where
  "visualizer L st = on_ok (plot1 L st) (\<lambda>st1. on_ok (plot2 L st1) (plot3 L))"

definition script :: "'s np_random \<Rightarrow> plot_library \<Rightarrow> 's \<Rightarrow> error + vis_state" where
  \<comment> \<open>the whole file, from a process with generator state \<open>s0\<close> and no figure open\<close>
  "script R L s0 =
     on_ok (simulate R s0) (\<lambda>(v, s).
       visualizer L \<lparr>table = df v, plt = \<lparr>open_figures = [], displayed = []\<rparr>\<rparr>)"

subsection \<open>A generator to run the model on\<close>

text \<open>
  A small linear congruential generator behind the \<open>np_random\<close> interface. It is not
  NumPy's Mersenne Twister; it gives the theorems below a concrete generator to be
  instantiated at.
\<close>

definition lcg_next :: "nat \<Rightarrow> nat" where
  "lcg_next s = (1103515245 * s + 12345) mod 2147483648"

fun lcg_draws :: "nat \<Rightarrow> nat \<Rightarrow> nat list \<times> nat" where
  "lcg_draws 0 s = ([], s)"
| "lcg_draws (Suc k) s = (let (us, s') = lcg_draws k (lcg_next s) in (lcg_next s # us, s'))"

definition lcg_randint :: "int \<Rightarrow> int \<Rightarrow> nat \<Rightarrow> nat \<Rightarrow> error + (int list \<times> nat)" where
  "lcg_randint lo hi k s =
     (if lo < hi then
        (let (us, s') = lcg_draws k s in Inr (map (\<lambda>u. lo + int u mod (hi - lo)) us, s'))
      else Inl ValueError)"

definition lcg_normal :: "float64 \<Rightarrow> float64 \<Rightarrow> nat \<Rightarrow> nat \<Rightarrow> error + (float64 list \<times> nat)" where
  "lcg_normal loc scale k s =
     (if fle (Fin 0) scale then
        (let (us, s') = lcg_draws k s
         in Inr (map (\<lambda>u. fadd loc (fmul scale (fof_int (int (u mod 7) - 3)))) us, s'))
      else Inl ValueError)"

definition lcg_binomial :: "int \<Rightarrow> float64 \<Rightarrow> nat \<Rightarrow> nat \<Rightarrow> error + (int list \<times> nat)" where
  "lcg_binomial m p k s =
     (if 0 \<le> m \<and> fle (Fin 0) p \<and> fle p (Fin 1) then
        (let (us, s') = lcg_draws k s
         in Inr (map (\<lambda>u. if flt (fround (of_nat (u mod 1000) / 1000)) p then m else 0) us, s'))
      else Inl ValueError)"

definition lcg :: "nat np_random" where
  "lcg = \<lparr>seed = (\<lambda>k. k), randint = lcg_randint, normal = lcg_normal,
          binomial = lcg_binomial\<rparr>"

subsection \<open>One row of the two latent variables\<close>

text \<open>
  Array arithmetic on equal shapes is the scalar expression applied row by row
  (lemmas \<open>objective_health_same\<close> and \<open>perceived_health_same\<close> below).
\<close>

definition objective_row :: "int \<Rightarrow> int \<Rightarrow> float64 \<Rightarrow> float64" where
  \<comment> \<open>the expression of line 17 on the elements of one row\<close>
  "objective_row d h e = fadd (fadd (fmul (float_lit (48/100)) (fof_int d))
                             (fmul (float_lit (61/100)) (fof_int h))) e"

definition perceived_row :: "float64 \<Rightarrow> float64 \<Rightarrow> int \<Rightarrow> float64 \<Rightarrow> float64" where
  \<comment> \<open>the expression of lines 24--27 on the elements of one row\<close>
  "perceived_row obj pov educ e =
     fadd (fadd (fadd (fmul (fneg (float_lit (48/100))) obj)
                      (fmul (fneg (float_lit (28/100))) pov))
                (fmul (float_lit (1/100)) (fof_int educ))) e"

subsection \<open>The draw order of the specification\<close>

text \<open>
  Sections 3 and 4.1 of the specification, in its own words: the distributions by name,
  with inclusive integer ranges, in the order in which they are to be drawn. The noise
  terms are given mean 0, which the specification leaves unsaid. This definition is
  compared with \<open>simulate\<close>; it is not used to define it.
\<close>

datatype distribution = UniformInt int int | Gaussian float64 float64 | Bernoulli float64

datatype sample = Ints "int list" | Floats "float64 list"

definition draw_from :: "'s np_random \<Rightarrow> distribution \<Rightarrow> nat \<Rightarrow> 's \<Rightarrow> error + (sample \<times> 's)" where
  "draw_from R d k s =
     (case d of
        UniformInt lo hi \<Rightarrow> on_ok (randint R lo (hi + 1) k s) (\<lambda>(xs, s'). Inr (Ints xs, s'))
      | Gaussian m sd \<Rightarrow> on_ok (normal R m sd k s) (\<lambda>(ys, s'). Inr (Floats ys, s'))
      | Bernoulli p \<Rightarrow> on_ok (binomial R 1 p k s) (\<lambda>(xs, s'). Inr (Ints xs, s')))"

fun draw_all :: "'s np_random \<Rightarrow> distribution list \<Rightarrow> nat \<Rightarrow> 's \<Rightarrow> error + (sample list \<times> 's)" where
  "draw_all R [] k s = Inr ([], s)"
| "draw_all R (d # ds) k s =
     on_ok (draw_from R d k s) (\<lambda>(x, s').
     on_ok (draw_all R ds k s') (\<lambda>(xs, s''). Inr (x # xs, s'')))"

definition spec_draw_order :: "(string \<times> distribution) list" where
  "spec_draw_order =
     [(''EDUCP_A'', UniformInt 1 4),
      (''POVRATTC_A'', Gaussian (fof_int 2) (float_lit (5/10))),
      (''DIBEV_A'', Bernoulli (float_lit (1/10))),
      (''HYPEV_A'', Bernoulli (float_lit (2/10))),
      (''ObjectiveHealth noise'', Gaussian (fof_int 0) (float_lit (5/10))),
      (''PHSTAT_A'', UniformInt 1 5),
      (''PHQCAT_A'', UniformInt 0 3),
      (''LSATIS4_A'', UniformInt 1 4),
      (''PerceivedHealth noise'', Gaussian (fof_int 0) (float_lit (5/10)))]"

subsection \<open>Tables for the plots\<close>

text \<open>
  What the claims about the Visualizer call a table with the required columns: the four
  columns that the plots name, with the element types the simulator gives them.
\<close>

definition required_columns :: "dataframe \<Rightarrow> bool" where
  "required_columns t =
     (\<exists>pov obj perc educ.
        map_of t ''POVRATTC_A'' = Some (FloatCol pov) \<and>
        map_of t ''ObjectiveHealth'' = Some (FloatCol obj) \<and>
        map_of t ''PerceivedHealth'' = Some (FloatCol perc) \<and>
        map_of t ''EDUCP_A'' = Some (IntCol educ))"

definition same_figures :: "error + vis_state \<Rightarrow> error + vis_state \<Rightarrow> bool" where
  \<comment> \<open>two runs end with the same exception or with the same pyplot state\<close>
  "same_figures r1 r2 = (map_sum id plt r1 = map_sum id plt r2)"

text \<open>Two small tables that differ only in the three columns no plot names.\<close>

definition tiny_table :: dataframe where
  "tiny_table =
     [(''EDUCP_A'', IntCol [1, 4]), (''POVRATTC_A'', FloatCol [Fin 2, Fin (3/2)]),
      (''ObjectiveHealth'', FloatCol [Fin 0, Fin (1/2)]),
      (''PerceivedHealth'', FloatCol [Fin (-1/2), Fin (-1)]),
      (''PHSTAT_A'', IntCol [1, 5]), (''PHQCAT_A'', IntCol [0, 3]),
      (''LSATIS4_A'', IntCol [1, 4])]"

definition tiny_table_other :: dataframe where
  "tiny_table_other =
     [(''EDUCP_A'', IntCol [1, 4]), (''POVRATTC_A'', FloatCol [Fin 2, Fin (3/2)]),
      (''ObjectiveHealth'', FloatCol [Fin 0, Fin (1/2)]),
      (''PerceivedHealth'', FloatCol [Fin (-1/2), Fin (-1)]),
      (''PHSTAT_A'', IntCol [3, 2]), (''PHQCAT_A'', IntCol [1, 1]),
      (''LSATIS4_A'', IntCol [2, 3])]"

definition no_figures :: pyplot where
  "no_figures = \<lparr>open_figures = [], displayed = []\<rparr>"

subsection \<open>Libraries for the plots\<close>

definition library_raises :: "plot_library \<Rightarrow> error \<Rightarrow> bool" where
  \<comment> \<open>the exception is one that the library raises, at a seaborn or at a pyplot call\<close>
  "library_raises L e =
     ((\<exists>req. draw L req = Some e) \<or> (\<exists>c p. pyplot_fault L c p = Some e))"

text \<open>
  Two libraries to run the model on. Neither is seaborn or matplotlib. The first raises
  nothing. The second draws every request, and its \<^verbatim>\<open>tight_layout\<close> raises
  \<^verbatim>\<open>ValueError\<close> on a figure that holds a value that is not finite; \<open>inf_table\<close> is
  \<open>tiny_table\<close> with such a value in \<^verbatim>\<open>PerceivedHealth\<close>.
\<close>

definition quiet_library :: plot_library where
  "quiet_library = \<lparr>draw = (\<lambda>req. None), pyplot_fault = (\<lambda>c p. None)\<rparr>"





section \<open>Properties\<close>

subsection \<open>Rounding: the exponent and literals\<close>

lemma bitlen_rat_bounds:
  assumes "0 < a"
  shows "2 powi (bitlen a - 1) \<le> (of_int a :: rat)" "(of_int a :: rat) < 2 powi bitlen a"
    "1 \<le> bitlen a"
proof -
  show one: "1 \<le> bitlen a"
    using assms by (simp add: bitlen_ge_iff_power)
  from bitlen_bounds [OF assms]
  have lo: "2 ^ nat (bitlen a - 1) \<le> a" and hi: "a < 2 ^ nat (bitlen a)" by auto
  from lo have "(of_int (2 ^ nat (bitlen a - 1)) :: rat) \<le> of_int a"
    by (simp only: of_int_le_iff)
  then show "2 powi (bitlen a - 1) \<le> (of_int a :: rat)"
    using one by (simp add: power_int_nonneg_exp)
  from hi have "(of_int a :: rat) < of_int (2 ^ nat (bitlen a))"
    by (simp only: of_int_less_iff)
  then show "(of_int a :: rat) < 2 powi bitlen a"
    using one by (simp add: power_int_nonneg_exp)
qed

lemma ilog2_bounds:
  assumes "0 < q"
  shows "2 powi ilog2 q \<le> q \<and> q < 2 powi (ilog2 q + 1)"
proof -
  obtain a b where ab: "quotient_of q = (a, b)" by (cases "quotient_of q")
  then have b: "0 < b" and q: "q = of_int a / of_int b"
    by (auto simp: quotient_of_denom_pos quotient_of_div)
  with assms have a: "0 < a" by (simp add: zero_less_divide_iff)
  define k where "k = bitlen a - bitlen b"
  note A = bitlen_rat_bounds [OF a] and B = bitlen_rat_bounds [OF b]
  have bpos: "(0::rat) < of_int b" using b by simp
  have up: "q < 2 powi (k + 1)"
  proof -
    have "of_int a * 2 powi (bitlen b - 1) < (2 powi bitlen a :: rat) * 2 powi (bitlen b - 1)"
      using A(2) by simp
    also have "\<dots> \<le> 2 powi bitlen a * of_int b"
      using B(1) by simp
    finally have "of_int a / of_int b < (2 powi bitlen a :: rat) / 2 powi (bitlen b - 1)"
      using bpos by (simp add: field_simps)
    also have "\<dots> = 2 powi (k + 1)"
      by (simp add: k_def power_int_diff power_int_add)
    finally show ?thesis by (simp add: q)
  qed
  have lo: "2 powi (k - 1) \<le> q"
  proof -
    have "(2 powi (bitlen a - 1) :: rat) * of_int b \<le> 2 powi (bitlen a - 1) * 2 powi bitlen b"
      using B(2) by simp
    also have "\<dots> \<le> of_int a * 2 powi bitlen b"
      using A(1) by simp
    finally have "(2 powi (bitlen a - 1) :: rat) / 2 powi bitlen b \<le> of_int a / of_int b"
      using bpos by (simp add: field_simps)
    moreover have "(2 powi (bitlen a - 1) :: rat) / 2 powi bitlen b = 2 powi (k - 1)"
      by (simp add: k_def power_int_diff)
    ultimately show ?thesis by (simp add: q)
  qed
  have il: "ilog2 q = (if 2 powi k \<le> q then k else k - 1)"
    by (simp add: ilog2_def ab k_def Let_def)
  show ?thesis
    using up lo by (auto simp: il)
qed

lemma ilog2_unique:
  assumes "2 powi k \<le> q" "q < 2 powi (k + 1)"
  shows "ilog2 q = k"
proof -
  have q: "0 < q" using assms(1) by (rule less_le_trans [rotated]) simp
  note B = ilog2_bounds [OF q]
  have "(2::rat) powi k < 2 powi (ilog2 q + 1)" using assms(1) B by linarith
  then have 1: "k < ilog2 q + 1"
    using power_int_increasing [of "ilog2 q + 1" k "2::rat"] by (cases "k < ilog2 q + 1") auto
  have "(2::rat) powi ilog2 q < 2 powi (k + 1)" using assms(2) B by linarith
  then have 2: "ilog2 q < k + 1"
    using power_int_increasing [of "k + 1" "ilog2 q" "2::rat"] by (cases "ilog2 q < k + 1") auto
  from 1 2 show ?thesis by simp
qed

lemma rnd_eval:
  assumes "2 powi k \<le> \<bar>q\<bar>" "\<bar>q\<bar> < 2 powi (k + 1)" "e = max (k - 52) (- 1074)"
  shows "rnd q = of_int (round_even (q / 2 powi e)) * 2 powi e"
proof -
  have "q \<noteq> 0" using assms(1) by (auto dest: less_le_trans [rotated, of _ _ 0])
  then show ?thesis
    by (simp add: rnd_def ulp_exp_def ilog2_unique [OF assms(1,2)] assms(3))
qed

lemma floor_numeral_div [simp]:
  "\<lfloor>numeral a / numeral b :: rat\<rfloor> = numeral a div numeral b"
  "\<lfloor>- (numeral a / numeral b) :: rat\<rfloor> = - numeral a div numeral b"
  using floor_divide_of_int_eq [of "numeral a" "numeral b", where ?'a = rat]
    floor_divide_of_int_eq [of "- numeral a" "numeral b", where ?'a = rat]
  by simp_all

lemma lit_tenth: "float_lit (1/10) = Fin (3602879701896397 / 36028797018963968)"
  by (simp add: float_lit_def fround_def rnd_eval [where k = "-4"] round_even_def max_float_def Let_def)

lemma lit_half: "float_lit (5/10) = Fin (1/2)"
  by (simp add: float_lit_def fround_def rnd_eval [where k = "-1"] round_even_def max_float_def Let_def)

subsection \<open>Running the simulator\<close>

lemma on_ok_Inr [simp]: "on_ok (Inr v) f = f v"
  by (simp add: on_ok_def)

lemma on_ok_Inl [simp]: "on_ok (Inl e) f = Inl e"
  by (simp add: on_ok_def)

lemma on_ok_eq_Inr: "on_ok r f = Inr w \<longleftrightarrow> (\<exists>v. r = Inr v \<and> f v = Inr w)"
  by (cases r) simp_all

lemma lit_fifth: "float_lit (2/10) = Fin (3602879701896397 / 18014398509481984)"
  by (simp add: float_lit_def fround_def rnd_eval [where k = "-3"] round_even_def max_float_def Let_def)

lemma fof_int_0: "fof_int 0 = Fin 0"
  by (simp add: fof_int_def fround_def rnd_def max_float_def)

lemma fof_int_2: "fof_int 2 = Fin 2"
  by (simp add: fof_int_def fround_def rnd_eval [where k = 1] round_even_def max_float_def Let_def)

lemma array_add_same: "length xs = length ys \<Longrightarrow> array_add xs ys = Inr (map2 fadd xs ys)"
  by (simp add: array_add_def)

lemma objective_health_same:
  assumes "length dibev = k" "length hypev = k" "length noise = k"
  shows "\<exists>obj. objective_health dibev hypev noise = Inr obj \<and> length obj = k \<and>
           (\<forall>i<k. obj ! i = objective_row (dibev ! i) (hypev ! i) (noise ! i))"
  using assms
  by (simp add: objective_health_def array_add_same scalar_mul_int_def objective_row_def)

lemma perceived_health_same:
  assumes "length obj = k" "length pov = k" "length educ = k" "length noise = k"
  shows "\<exists>perc. perceived_health obj pov educ noise = Inr perc \<and> length perc = k \<and>
           (\<forall>i<k. perc ! i = perceived_row (obj ! i) (pov ! i) (educ ! i) (noise ! i))"
  using assms
  by (simp add: perceived_health_def array_add_same scalar_mul_int_def scalar_mul_def perceived_row_def)

lemma make_df_same:
  assumes "length educ = k" "length pov = k" "length obj = k" "length perc = k"
    "length phstat = k" "length phqcat = k" "length lsatis = k"
  shows "make_df educ pov obj perc phstat phqcat lsatis =
         Inr [(''EDUCP_A'', IntCol educ), (''POVRATTC_A'', FloatCol pov),
              (''ObjectiveHealth'', FloatCol obj), (''PerceivedHealth'', FloatCol perc),
              (''PHSTAT_A'', IntCol phstat), (''PHQCAT_A'', IntCol phqcat),
              (''LSATIS4_A'', IntCol lsatis)]"
  using assms by (simp add: make_df_def DataFrame_def)

lemma randint_ok:
  assumes "np_random_ok R" "lo < hi" "- (2 ^ 63) \<le> lo" "hi \<le> 2 ^ 63"
  obtains xs s' where "randint R lo hi k s = Inr (xs, s')" "length xs = k"
    "\<forall>x \<in> set xs. lo \<le> x \<and> x < hi"
  using assms unfolding np_random_ok_def by blast

lemma normal_ok:
  assumes "np_random_ok R" "is_finite loc" "is_finite scale" "\<not> fsign scale"
  obtains ys s' where "normal R loc scale k s = Inr (ys, s')" "length ys = k"
  using assms unfolding np_random_ok_def by blast

lemma binomial_ok:
  assumes "np_random_ok R" "0 \<le> m" "m < 2 ^ 63" "fle (Fin 0) p" "fle p (Fin 1)"
  obtains xs s' where "binomial R m p k s = Inr (xs, s')" "length xs = k"
    "\<forall>x \<in> set xs. 0 \<le> x \<and> x \<le> m"
  using assms unfolding np_random_ok_def by blast

lemma simulate_run:
  assumes R: "np_random_ok R"
  obtains educ s1 pov s2 dibev s3 hypev s4 noise1 s5 obj phstat s6 phqcat s7 lsatis s8
    noise2 s9 perc
  where "randint R 1 5 n_rows (seed R seed_value) = Inr (educ, s1)"
    and "normal R (fof_int 2) (float_lit (5/10)) n_rows s1 = Inr (pov, s2)"
    and "binomial R 1 (float_lit (1/10)) n_rows s2 = Inr (dibev, s3)"
    and "binomial R 1 (float_lit (2/10)) n_rows s3 = Inr (hypev, s4)"
    and "normal R (fof_int 0) (float_lit (5/10)) n_rows s4 = Inr (noise1, s5)"
    and "randint R 1 6 n_rows s5 = Inr (phstat, s6)"
    and "randint R 0 4 n_rows s6 = Inr (phqcat, s7)"
    and "randint R 1 5 n_rows s7 = Inr (lsatis, s8)"
    and "normal R (fof_int 0) (float_lit (5/10)) n_rows s8 = Inr (noise2, s9)"
    and "length educ = n_rows" "length pov = n_rows" "length dibev = n_rows"
      "length hypev = n_rows" "length noise1 = n_rows" "length obj = n_rows"
      "length phstat = n_rows" "length phqcat = n_rows" "length lsatis = n_rows"
      "length noise2 = n_rows" "length perc = n_rows"
    and "\<forall>x \<in> set educ. 1 \<le> x \<and> x < 5" "\<forall>x \<in> set dibev. 0 \<le> x \<and> x \<le> 1"
      "\<forall>x \<in> set hypev. 0 \<le> x \<and> x \<le> 1" "\<forall>x \<in> set phstat. 1 \<le> x \<and> x < 6"
      "\<forall>x \<in> set phqcat. 0 \<le> x \<and> x < 4" "\<forall>x \<in> set lsatis. 1 \<le> x \<and> x < 5"
    and "\<forall>i<n_rows. obj ! i = objective_row (dibev ! i) (hypev ! i) (noise1 ! i)"
    and "\<forall>i<n_rows. perc ! i = perceived_row (obj ! i) (pov ! i) (educ ! i) (noise2 ! i)"
    and "simulate R s0 =
           Inr (\<lparr>EDUCP_A = educ, POVRATTC_A = pov, DIBEV_A = dibev, HYPEV_A = hypev,
                 ObjectiveHealth = obj, PHSTAT_A = phstat, PHQCAT_A = phqcat,
                 LSATIS4_A = lsatis, PerceivedHealth = perc,
                 df = [(''EDUCP_A'', IntCol educ), (''POVRATTC_A'', FloatCol pov),
                       (''ObjectiveHealth'', FloatCol obj), (''PerceivedHealth'', FloatCol perc),
                       (''PHSTAT_A'', IntCol phstat), (''PHQCAT_A'', IntCol phqcat),
                       (''LSATIS4_A'', IntCol lsatis)]\<rparr>, s9)"
proof -
  have half: "is_finite (float_lit (5/10))" "\<not> fsign (float_lit (5/10))"
    by (simp_all only: lit_half) simp_all
  have p1: "fle (Fin 0) (float_lit (1/10))" "fle (float_lit (1/10)) (Fin 1)"
    by (simp_all only: lit_tenth) (simp_all add: fle_def)
  have p2: "fle (Fin 0) (float_lit (2/10))" "fle (float_lit (2/10)) (Fin 1)"
    by (simp_all only: lit_fifth) (simp_all add: fle_def)
  have fin: "is_finite (fof_int 2)" "is_finite (fof_int 0)"
    by (simp_all add: fof_int_0 fof_int_2)
  obtain educ s1 where 1: "randint R 1 5 n_rows (seed R seed_value) = Inr (educ, s1)"
    "length educ = n_rows" "\<forall>x \<in> set educ. 1 \<le> x \<and> x < 5"
    by (rule randint_ok [OF R, of 1 5]) auto
  obtain pov s2 where 2: "normal R (fof_int 2) (float_lit (5/10)) n_rows s1 = Inr (pov, s2)"
    "length pov = n_rows"
    by (rule normal_ok [OF R fin(1) half])
  obtain dibev s3 where 3: "binomial R 1 (float_lit (1/10)) n_rows s2 = Inr (dibev, s3)"
    "length dibev = n_rows" "\<forall>x \<in> set dibev. 0 \<le> x \<and> x \<le> 1"
    by (rule binomial_ok [OF R _ _ p1, of 1]) auto
  obtain hypev s4 where 4: "binomial R 1 (float_lit (2/10)) n_rows s3 = Inr (hypev, s4)"
    "length hypev = n_rows" "\<forall>x \<in> set hypev. 0 \<le> x \<and> x \<le> 1"
    by (rule binomial_ok [OF R _ _ p2, of 1]) auto
  obtain noise1 s5 where 5: "normal R (fof_int 0) (float_lit (5/10)) n_rows s4 = Inr (noise1, s5)"
    "length noise1 = n_rows"
    by (rule normal_ok [OF R fin(2) half])
  obtain obj where 6: "objective_health dibev hypev noise1 = Inr obj" "length obj = n_rows"
    "\<forall>i<n_rows. obj ! i = objective_row (dibev ! i) (hypev ! i) (noise1 ! i)"
    using objective_health_same [OF 3(2) 4(2) 5(2)] by blast
  obtain phstat s6 where 7: "randint R 1 6 n_rows s5 = Inr (phstat, s6)"
    "length phstat = n_rows" "\<forall>x \<in> set phstat. 1 \<le> x \<and> x < 6"
    by (rule randint_ok [OF R, of 1 6]) auto
  obtain phqcat s7 where 8: "randint R 0 4 n_rows s6 = Inr (phqcat, s7)"
    "length phqcat = n_rows" "\<forall>x \<in> set phqcat. 0 \<le> x \<and> x < 4"
    by (rule randint_ok [OF R, of 0 4]) auto
  obtain lsatis s8 where 9: "randint R 1 5 n_rows s7 = Inr (lsatis, s8)"
    "length lsatis = n_rows" "\<forall>x \<in> set lsatis. 1 \<le> x \<and> x < 5"
    by (rule randint_ok [OF R, of 1 5]) auto
  obtain noise2 s9 where 10: "normal R (fof_int 0) (float_lit (5/10)) n_rows s8 = Inr (noise2, s9)"
    "length noise2 = n_rows"
    by (rule normal_ok [OF R fin(2) half])
  obtain perc where 11: "perceived_health obj pov educ noise2 = Inr perc" "length perc = n_rows"
    "\<forall>i<n_rows. perc ! i = perceived_row (obj ! i) (pov ! i) (educ ! i) (noise2 ! i)"
    using perceived_health_same [OF 6(2) 2(2) 1(2) 10(2)] by blast
  note 12 = make_df_same [OF 1(2) 2(2) 6(2) 11(2) 7(2) 8(2) 9(2)]
  have "simulate R s0 =
           Inr (\<lparr>EDUCP_A = educ, POVRATTC_A = pov, DIBEV_A = dibev, HYPEV_A = hypev,
                 ObjectiveHealth = obj, PHSTAT_A = phstat, PHQCAT_A = phqcat,
                 LSATIS4_A = lsatis, PerceivedHealth = perc,
                 df = [(''EDUCP_A'', IntCol educ), (''POVRATTC_A'', FloatCol pov),
                       (''ObjectiveHealth'', FloatCol obj), (''PerceivedHealth'', FloatCol perc),
                       (''PHSTAT_A'', IntCol phstat), (''PHQCAT_A'', IntCol phqcat),
                       (''LSATIS4_A'', IntCol lsatis)]\<rparr>, s9)"
    unfolding simulate_def Let_def
    by (simp only: 1(1) 2(1) 3(1) 4(1) 5(1) 6(1) 7(1) 8(1) 9(1) 10(1) 11(1) 12 on_ok_Inr
        prod.case)
  then show ?thesis
    using that 1 2 3 4 5 6 7 8 9 10 11 by blast
qed

subsection \<open>The linear congruential generator meets the interface\<close>

lemma lcg_draws_length: "length (fst (lcg_draws k s)) = k"
  by (induction k arbitrary: s) (simp_all add: split_def Let_def)

lemma lcg_ok: "np_random_ok lcg"
  unfolding np_random_ok_def
proof (intro conjI allI impI)
  fix lo hi :: int and k s :: nat
  assume "lo < hi \<and> - (2 ^ 63) \<le> lo \<and> hi \<le> 2 ^ 63"
  then show "\<exists>xs s'. randint lcg lo hi k s = Inr (xs, s') \<and> length xs = k \<and>
                 (\<forall>x \<in> set xs. lo \<le> x \<and> x < hi)"
    using lcg_draws_length [of k s] pos_mod_bound [of "hi - lo"]
    by (auto simp: lcg_def lcg_randint_def split_def Let_def less_diff_eq add.commute)
next
  fix loc scale :: float64 and k s :: nat
  assume "is_finite loc \<and> is_finite scale \<and> \<not> fsign scale"
  then have "fle (Fin 0) scale"
    by (cases scale) (auto simp: fle_def)
  then show "\<exists>ys s'. normal lcg loc scale k s = Inr (ys, s') \<and> length ys = k"
    using lcg_draws_length [of k s]
    by (auto simp: lcg_def lcg_normal_def split_def Let_def)
next
  fix m :: int and p :: float64 and k s :: nat
  assume "0 \<le> m \<and> m < 2 ^ 63 \<and> fle (Fin 0) p \<and> fle p (Fin 1)"
  then show "\<exists>xs s'. binomial lcg m p k s = Inr (xs, s') \<and> length xs = k \<and>
                 (\<forall>x \<in> set xs. 0 \<le> x \<and> x \<le> m)"
    using lcg_draws_length [of k s]
    by (auto simp: lcg_def lcg_binomial_def split_def Let_def)
qed

subsection \<open>The generated table\<close>

text \<open>
  \<^bold>\<open>C2\<close> (determinism). Line 7 replaces the state of the global generator, so the
  variables and the table that the simulator produces, and the generator state it leaves
  behind, do not depend on the state in which the process started: two runs give the same
  result, column by column, whatever entropy the two processes began with.
\<close>

theorem simulate_deterministic: "simulate R s0 = simulate R s0'"
  by (simp add: simulate_def)

text \<open>
  \<^bold>\<open>C1\<close> (shape of the table). The claim asks for 1000 rows and nine columns, among them
  \<^verbatim>\<open>DIBEV_A\<close> and \<^verbatim>\<open>HYPEV_A\<close>. The dict of lines 31--39 has seven entries: the two
  indicator arrays are drawn and used for \<^verbatim>\<open>ObjectiveHealth\<close>, but they are not stored in
  the frame. With the generator \<open>lcg\<close> the run succeeds and the frame is 1000 by 7.
\<close>

theorem table_shape_counterexample:
  "\<not> isl (simulate lcg 0) \<and>
   shape (df (fst (projr (simulate lcg 0)))) = (1000, 7) \<and>
   shape (df (fst (projr (simulate lcg 0)))) \<noteq> (1000, 9) \<and>
   ''DIBEV_A'' \<notin> set (columns (df (fst (projr (simulate lcg 0))))) \<and>
   ''HYPEV_A'' \<notin> set (columns (df (fst (projr (simulate lcg 0)))))"
proof -
  from lcg_ok show ?thesis
  proof (rule simulate_run [where ?s0.0 = 0])
    fix educ :: "int list" and s9 :: nat and pov obj perc phstat phqcat lsatis dibev hypev
    assume "length educ = n_rows"
      and "simulate lcg 0 =
           Inr (\<lparr>EDUCP_A = educ, POVRATTC_A = pov, DIBEV_A = dibev, HYPEV_A = hypev,
                 ObjectiveHealth = obj, PHSTAT_A = phstat, PHQCAT_A = phqcat,
                 LSATIS4_A = lsatis, PerceivedHealth = perc,
                 df = [(''EDUCP_A'', IntCol educ), (''POVRATTC_A'', FloatCol pov),
                       (''ObjectiveHealth'', FloatCol obj), (''PerceivedHealth'', FloatCol perc),
                       (''PHSTAT_A'', IntCol phstat), (''PHQCAT_A'', IntCol phqcat),
                       (''LSATIS4_A'', IntCol lsatis)]\<rparr>, s9)"
    then show ?thesis
      by (simp add: shape_def columns_def n_rows_def)
  qed
qed

text \<open>
  \<^bold>\<open>C1\<close>, amended. With any generator that meets NumPy's interface the simulator
  returns a table of exactly 1000 rows and 7 columns, named \<^verbatim>\<open>EDUCP_A\<close>,
  \<^verbatim>\<open>POVRATTC_A\<close>, \<^verbatim>\<open>ObjectiveHealth\<close>, \<^verbatim>\<open>PerceivedHealth\<close>, \<^verbatim>\<open>PHSTAT_A\<close>,
  \<^verbatim>\<open>PHQCAT_A\<close>, \<^verbatim>\<open>LSATIS4_A\<close> in this order, every column 1000 long.
\<close>

theorem table_shape:
  assumes "np_random_ok R"
  shows "\<exists>v s. simulate R s0 = Inr (v, s) \<and> shape (df v) = (1000, 7) \<and>
           columns (df v) = [''EDUCP_A'', ''POVRATTC_A'', ''ObjectiveHealth'',
             ''PerceivedHealth'', ''PHSTAT_A'', ''PHQCAT_A'', ''LSATIS4_A''] \<and>
           (\<forall>kc \<in> set (df v). col_len (snd kc) = 1000)"
  using assms
proof (rule simulate_run [where ?s0.0 = s0])
  fix educ :: "int list" and s9 :: 'a and pov obj perc phstat phqcat lsatis dibev hypev
  assume "length educ = n_rows" "length pov = n_rows" "length obj = n_rows"
    "length phstat = n_rows" "length phqcat = n_rows" "length lsatis = n_rows"
    "length perc = n_rows"
    and "simulate R s0 =
           Inr (\<lparr>EDUCP_A = educ, POVRATTC_A = pov, DIBEV_A = dibev, HYPEV_A = hypev,
                 ObjectiveHealth = obj, PHSTAT_A = phstat, PHQCAT_A = phqcat,
                 LSATIS4_A = lsatis, PerceivedHealth = perc,
                 df = [(''EDUCP_A'', IntCol educ), (''POVRATTC_A'', FloatCol pov),
                       (''ObjectiveHealth'', FloatCol obj), (''PerceivedHealth'', FloatCol perc),
                       (''PHSTAT_A'', IntCol phstat), (''PHQCAT_A'', IntCol phqcat),
                       (''LSATIS4_A'', IntCol lsatis)]\<rparr>, s9)"
  then show ?thesis
    by (simp add: shape_def columns_def n_rows_def)
qed

theorem table_shape_witness:
  "np_random_ok lcg \<and>
   (\<exists>v s. simulate lcg 0 = Inr (v, s) \<and> shape (df v) = (1000, 7) \<and>
           columns (df v) = [''EDUCP_A'', ''POVRATTC_A'', ''ObjectiveHealth'',
             ''PerceivedHealth'', ''PHSTAT_A'', ''PHQCAT_A'', ''LSATIS4_A''] \<and>
           (\<forall>kc \<in> set (df v). col_len (snd kc) = 1000))"
  using table_shape [OF lcg_ok, of 0] lcg_ok by simp

text \<open>
  \<^bold>\<open>C5\<close> (ranges). With any generator that meets NumPy's interface, the four categorical
  columns of the table hold integers in the stated ranges, \<^verbatim>\<open>EDUCP_A\<close> in \<open>[1,4]\<close>,
  \<^verbatim>\<open>PHSTAT_A\<close> in \<open>[1,5]\<close>, \<^verbatim>\<open>PHQCAT_A\<close> in \<open>[0,3]\<close>, \<^verbatim>\<open>LSATIS4_A\<close> in \<open>[1,4]\<close>
  (the upper bound of \<^verbatim>\<open>randint\<close> is exclusive), and every value of the arrays
  \<^verbatim>\<open>DIBEV_A\<close> and \<^verbatim>\<open>HYPEV_A\<close> is 0 or 1.
\<close>

theorem values_in_range:
  assumes "np_random_ok R"
  shows "\<exists>v s. simulate R s0 = Inr (v, s) \<and>
           getitem (df v) ''EDUCP_A'' = Inr (IntCol (EDUCP_A v)) \<and>
           getitem (df v) ''PHSTAT_A'' = Inr (IntCol (PHSTAT_A v)) \<and>
           getitem (df v) ''PHQCAT_A'' = Inr (IntCol (PHQCAT_A v)) \<and>
           getitem (df v) ''LSATIS4_A'' = Inr (IntCol (LSATIS4_A v)) \<and>
           (\<forall>x \<in> set (EDUCP_A v). 1 \<le> x \<and> x \<le> 4) \<and>
           (\<forall>x \<in> set (PHSTAT_A v). 1 \<le> x \<and> x \<le> 5) \<and>
           (\<forall>x \<in> set (PHQCAT_A v). 0 \<le> x \<and> x \<le> 3) \<and>
           (\<forall>x \<in> set (LSATIS4_A v). 1 \<le> x \<and> x \<le> 4) \<and>
           (\<forall>x \<in> set (DIBEV_A v). x = 0 \<or> x = 1) \<and>
           (\<forall>x \<in> set (HYPEV_A v). x = 0 \<or> x = 1)"
  using assms
proof (rule simulate_run [where ?s0.0 = s0])
  fix educ dibev hypev phstat phqcat lsatis :: "int list" and s9 :: 'a and pov obj perc
  assume "\<forall>x \<in> set educ. 1 \<le> x \<and> x < 5" "\<forall>x \<in> set dibev. 0 \<le> x \<and> x \<le> 1"
      "\<forall>x \<in> set hypev. 0 \<le> x \<and> x \<le> 1" "\<forall>x \<in> set phstat. 1 \<le> x \<and> x < 6"
      "\<forall>x \<in> set phqcat. 0 \<le> x \<and> x < 4" "\<forall>x \<in> set lsatis. 1 \<le> x \<and> x < 5"
    and "simulate R s0 =
           Inr (\<lparr>EDUCP_A = educ, POVRATTC_A = pov, DIBEV_A = dibev, HYPEV_A = hypev,
                 ObjectiveHealth = obj, PHSTAT_A = phstat, PHQCAT_A = phqcat,
                 LSATIS4_A = lsatis, PerceivedHealth = perc,
                 df = [(''EDUCP_A'', IntCol educ), (''POVRATTC_A'', FloatCol pov),
                       (''ObjectiveHealth'', FloatCol obj), (''PerceivedHealth'', FloatCol perc),
                       (''PHSTAT_A'', IntCol phstat), (''PHQCAT_A'', IntCol phqcat),
                       (''LSATIS4_A'', IntCol lsatis)]\<rparr>, s9)"
  then show ?thesis
    by (fastforce simp: getitem_def)
qed

theorem values_in_range_witness:
  "np_random_ok lcg \<and>
   (\<exists>v s. simulate lcg 0 = Inr (v, s) \<and>
           getitem (df v) ''EDUCP_A'' = Inr (IntCol (EDUCP_A v)) \<and>
           getitem (df v) ''PHSTAT_A'' = Inr (IntCol (PHSTAT_A v)) \<and>
           getitem (df v) ''PHQCAT_A'' = Inr (IntCol (PHQCAT_A v)) \<and>
           getitem (df v) ''LSATIS4_A'' = Inr (IntCol (LSATIS4_A v)) \<and>
           (\<forall>x \<in> set (EDUCP_A v). 1 \<le> x \<and> x \<le> 4) \<and>
           (\<forall>x \<in> set (PHSTAT_A v). 1 \<le> x \<and> x \<le> 5) \<and>
           (\<forall>x \<in> set (PHQCAT_A v). 0 \<le> x \<and> x \<le> 3) \<and>
           (\<forall>x \<in> set (LSATIS4_A v). 1 \<le> x \<and> x \<le> 4) \<and>
           (\<forall>x \<in> set (DIBEV_A v). x = 0 \<or> x = 1) \<and>
           (\<forall>x \<in> set (HYPEV_A v). x = 0 \<or> x = 1))"
  using values_in_range [OF lcg_ok, of 0] lcg_ok by simp

subsection \<open>Order of the draws\<close>

lemma simulate_InrD:
  assumes "simulate R s0 = Inr (v, s)"
  shows "\<exists>s1 s2 s3 s4 noise1 s5 s6 s7 s8 noise2.
      randint R 1 5 n_rows (seed R seed_value) = Inr (EDUCP_A v, s1) \<and>
      normal R (fof_int 2) (float_lit (5/10)) n_rows s1 = Inr (POVRATTC_A v, s2) \<and>
      binomial R 1 (float_lit (1/10)) n_rows s2 = Inr (DIBEV_A v, s3) \<and>
      binomial R 1 (float_lit (2/10)) n_rows s3 = Inr (HYPEV_A v, s4) \<and>
      normal R (fof_int 0) (float_lit (5/10)) n_rows s4 = Inr (noise1, s5) \<and>
      objective_health (DIBEV_A v) (HYPEV_A v) noise1 = Inr (ObjectiveHealth v) \<and>
      randint R 1 6 n_rows s5 = Inr (PHSTAT_A v, s6) \<and>
      randint R 0 4 n_rows s6 = Inr (PHQCAT_A v, s7) \<and>
      randint R 1 5 n_rows s7 = Inr (LSATIS4_A v, s8) \<and>
      normal R (fof_int 0) (float_lit (5/10)) n_rows s8 = Inr (noise2, s) \<and>
      perceived_health (ObjectiveHealth v) (POVRATTC_A v) (EDUCP_A v) noise2 =
        Inr (PerceivedHealth v) \<and>
      make_df (EDUCP_A v) (POVRATTC_A v) (ObjectiveHealth v) (PerceivedHealth v)
        (PHSTAT_A v) (PHQCAT_A v) (LSATIS4_A v) = Inr (df v)"
  using assms by (auto simp: simulate_def Let_def on_ok_eq_Inr)


text \<open>
  \<^bold>\<open>C6\<close> (draw order). Whenever the simulator returns, its nine arrays are what drawing
  the distributions of \<open>spec_draw_order\<close> one after the other gives, each draw starting
  from the generator state the one before it left, the first from the seeded state, and
  the last leaving the state the simulator ends in: \<^verbatim>\<open>EDUCP_A\<close>, \<^verbatim>\<open>POVRATTC_A\<close>,
  \<^verbatim>\<open>DIBEV_A\<close>, \<^verbatim>\<open>HYPEV_A\<close>, the noise of \<^verbatim>\<open>ObjectiveHealth\<close>, \<^verbatim>\<open>PHSTAT_A\<close>,
  \<^verbatim>\<open>PHQCAT_A\<close>, \<^verbatim>\<open>LSATIS4_A\<close>, the noise of \<^verbatim>\<open>PerceivedHealth\<close>.
\<close>

theorem draws_follow_spec_order:
  assumes "simulate R s0 = Inr (v, s)"
  shows "\<exists>noise1 noise2.
      draw_all R (map snd spec_draw_order) n_rows (seed R seed_value) =
        Inr ([Ints (EDUCP_A v), Floats (POVRATTC_A v), Ints (DIBEV_A v), Ints (HYPEV_A v),
              Floats noise1, Ints (PHSTAT_A v), Ints (PHQCAT_A v), Ints (LSATIS4_A v),
              Floats noise2], s) \<and>
      objective_health (DIBEV_A v) (HYPEV_A v) noise1 = Inr (ObjectiveHealth v) \<and>
      perceived_health (ObjectiveHealth v) (POVRATTC_A v) (EDUCP_A v) noise2 =
        Inr (PerceivedHealth v)"
proof -
  from simulate_InrD [OF assms] obtain s1 s2 s3 s4 noise1 s5 s6 s7 s8 noise2 where
    "randint R 1 5 n_rows (seed R seed_value) = Inr (EDUCP_A v, s1)"
    "normal R (fof_int 2) (float_lit (5/10)) n_rows s1 = Inr (POVRATTC_A v, s2)"
    "binomial R 1 (float_lit (1/10)) n_rows s2 = Inr (DIBEV_A v, s3)"
    "binomial R 1 (float_lit (2/10)) n_rows s3 = Inr (HYPEV_A v, s4)"
    "normal R (fof_int 0) (float_lit (5/10)) n_rows s4 = Inr (noise1, s5)"
    "objective_health (DIBEV_A v) (HYPEV_A v) noise1 = Inr (ObjectiveHealth v)"
    "randint R 1 6 n_rows s5 = Inr (PHSTAT_A v, s6)"
    "randint R 0 4 n_rows s6 = Inr (PHQCAT_A v, s7)"
    "randint R 1 5 n_rows s7 = Inr (LSATIS4_A v, s8)"
    "normal R (fof_int 0) (float_lit (5/10)) n_rows s8 = Inr (noise2, s)"
    "perceived_health (ObjectiveHealth v) (POVRATTC_A v) (EDUCP_A v) noise2 =
       Inr (PerceivedHealth v)"
    by blast
  then show ?thesis
    by (simp add: spec_draw_order_def draw_from_def)
qed

theorem draws_follow_spec_order_witness:
  "\<exists>v s. simulate lcg 0 = Inr (v, s) \<and>
     (\<exists>noise1 noise2.
        draw_all lcg (map snd spec_draw_order) n_rows (seed lcg seed_value) =
          Inr ([Ints (EDUCP_A v), Floats (POVRATTC_A v), Ints (DIBEV_A v), Ints (HYPEV_A v),
                Floats noise1, Ints (PHSTAT_A v), Ints (PHQCAT_A v), Ints (LSATIS4_A v),
                Floats noise2], s) \<and>
        objective_health (DIBEV_A v) (HYPEV_A v) noise1 = Inr (ObjectiveHealth v) \<and>
        perceived_health (ObjectiveHealth v) (POVRATTC_A v) (EDUCP_A v) noise2 =
          Inr (PerceivedHealth v))"
proof -
  obtain v s where run: "simulate lcg 0 = Inr (v, s)"
    by (rule simulate_run [OF lcg_ok, where ?s0.0 = 0]) blast
  from draws_follow_spec_order [OF run] run show ?thesis by blast
qed

subsection \<open>The two latent variables\<close>

lemma draw_all_nine:
  assumes "randint R 1 5 n (seed R seed_value) = Inr (educ, s1)"
    "normal R (fof_int 2) (float_lit (5/10)) n s1 = Inr (pov, s2)"
    "binomial R 1 (float_lit (1/10)) n s2 = Inr (dibev, s3)"
    "binomial R 1 (float_lit (2/10)) n s3 = Inr (hypev, s4)"
    "normal R (fof_int 0) (float_lit (5/10)) n s4 = Inr (noise1, s5)"
    "randint R 1 6 n s5 = Inr (phstat, s6)"
    "randint R 0 4 n s6 = Inr (phqcat, s7)"
    "randint R 1 5 n s7 = Inr (lsatis, s8)"
    "normal R (fof_int 0) (float_lit (5/10)) n s8 = Inr (noise2, s9)"
  shows "draw_all R (map snd spec_draw_order) n (seed R seed_value) =
           Inr ([Ints educ, Floats pov, Ints dibev, Ints hypev, Floats noise1, Ints phstat,
                 Ints phqcat, Ints lsatis, Floats noise2], s9)"
  using assms by (simp add: spec_draw_order_def draw_from_def)

lemma fifth_and_ninth_draw:
  "map snd spec_draw_order ! 4 = Gaussian (fof_int 0) (float_lit (5/10))"
  "map snd spec_draw_order ! 8 = Gaussian (fof_int 0) (float_lit (5/10))"
  by (simp_all add: spec_draw_order_def)

text \<open>
  \<^bold>\<open>C3\<close> (ObjectiveHealth). With any generator that meets NumPy's interface, every row
  of the column \<^verbatim>\<open>ObjectiveHealth\<close> is \<open>0.48 * DIBEV_A + 0.61 * HYPEV_A + noise\<close> on the
  values of that row, in \<^verbatim>\<open>float64\<close> arithmetic. The noise array is a draw of its own:
  the fifth of the nine draws made in order from the seeded generator, one value for each
  row, from \<^verbatim>\<open>normal\<close> with mean 0 and standard deviation 0.5. It is drawn after
  \<^verbatim>\<open>DIBEV_A\<close> and \<^verbatim>\<open>HYPEV_A\<close> from the state their draws left, and it is not the ninth
  draw, which is the noise of \<^verbatim>\<open>PerceivedHealth\<close>.
\<close>

theorem objective_health_linear:
  assumes "np_random_ok R"
  shows "\<exists>v s noise1 noise2. simulate R s0 = Inr (v, s) \<and>
      getitem (df v) ''ObjectiveHealth'' = Inr (FloatCol (ObjectiveHealth v)) \<and>
      map snd spec_draw_order ! 4 = Gaussian (fof_int 0) (float_lit (5/10)) \<and>
      draw_all R (map snd spec_draw_order) n_rows (seed R seed_value) =
        Inr ([Ints (EDUCP_A v), Floats (POVRATTC_A v), Ints (DIBEV_A v), Ints (HYPEV_A v),
              Floats noise1, Ints (PHSTAT_A v), Ints (PHQCAT_A v), Ints (LSATIS4_A v),
              Floats noise2], s) \<and>
      length noise1 = n_rows \<and> length (ObjectiveHealth v) = n_rows \<and>
      length (DIBEV_A v) = n_rows \<and> length (HYPEV_A v) = n_rows \<and>
      (\<forall>i<n_rows. ObjectiveHealth v ! i =
         fadd (fadd (fmul (float_lit (48/100)) (fof_int (DIBEV_A v ! i)))
                    (fmul (float_lit (61/100)) (fof_int (HYPEV_A v ! i))))
              (noise1 ! i))"
  using assms
proof (rule simulate_run [where ?s0.0 = s0])
  fix educ dibev hypev phstat phqcat lsatis :: "int list"
    and s1 s2 s3 s4 s5 s6 s7 s8 s9 :: 'a
    and pov obj perc noise1 noise2
  assume d: "randint R 1 5 n_rows (seed R seed_value) = Inr (educ, s1)"
    "normal R (fof_int 2) (float_lit (5/10)) n_rows s1 = Inr (pov, s2)"
    "binomial R 1 (float_lit (1/10)) n_rows s2 = Inr (dibev, s3)"
    "binomial R 1 (float_lit (2/10)) n_rows s3 = Inr (hypev, s4)"
    "normal R (fof_int 0) (float_lit (5/10)) n_rows s4 = Inr (noise1, s5)"
    "randint R 1 6 n_rows s5 = Inr (phstat, s6)"
    "randint R 0 4 n_rows s6 = Inr (phqcat, s7)"
    "randint R 1 5 n_rows s7 = Inr (lsatis, s8)"
    "normal R (fof_int 0) (float_lit (5/10)) n_rows s8 = Inr (noise2, s9)"
    and l: "length dibev = n_rows" "length hypev = n_rows" "length noise1 = n_rows"
      "length obj = n_rows"
    and r: "\<forall>i<n_rows. obj ! i = objective_row (dibev ! i) (hypev ! i) (noise1 ! i)"
    and run: "simulate R s0 =
           Inr (\<lparr>EDUCP_A = educ, POVRATTC_A = pov, DIBEV_A = dibev, HYPEV_A = hypev,
                 ObjectiveHealth = obj, PHSTAT_A = phstat, PHQCAT_A = phqcat,
                 LSATIS4_A = lsatis, PerceivedHealth = perc,
                 df = [(''EDUCP_A'', IntCol educ), (''POVRATTC_A'', FloatCol pov),
                       (''ObjectiveHealth'', FloatCol obj), (''PerceivedHealth'', FloatCol perc),
                       (''PHSTAT_A'', IntCol phstat), (''PHQCAT_A'', IntCol phqcat),
                       (''LSATIS4_A'', IntCol lsatis)]\<rparr>, s9)"
  let ?v = "\<lparr>EDUCP_A = educ, POVRATTC_A = pov, DIBEV_A = dibev, HYPEV_A = hypev,
      ObjectiveHealth = obj, PHSTAT_A = phstat, PHQCAT_A = phqcat, LSATIS4_A = lsatis,
      PerceivedHealth = perc,
      df = [(''EDUCP_A'', IntCol educ), (''POVRATTC_A'', FloatCol pov),
            (''ObjectiveHealth'', FloatCol obj), (''PerceivedHealth'', FloatCol perc),
            (''PHSTAT_A'', IntCol phstat), (''PHQCAT_A'', IntCol phqcat),
            (''LSATIS4_A'', IntCol lsatis)]\<rparr>"
  have 1: "simulate R s0 = Inr (?v, s9)" by (rule run)
  have 2: "getitem (df ?v) ''ObjectiveHealth'' = Inr (FloatCol (ObjectiveHealth ?v))"
    by (simp add: getitem_def)
  note 3 = fifth_and_ninth_draw(1)
  have 4: "draw_all R (map snd spec_draw_order) n_rows (seed R seed_value) =
        Inr ([Ints (EDUCP_A ?v), Floats (POVRATTC_A ?v), Ints (DIBEV_A ?v), Ints (HYPEV_A ?v),
              Floats noise1, Ints (PHSTAT_A ?v), Ints (PHQCAT_A ?v), Ints (LSATIS4_A ?v),
              Floats noise2], s9)"
    using draw_all_nine [OF d] by simp
  have 5: "length noise1 = n_rows" "length (ObjectiveHealth ?v) = n_rows"
    "length (DIBEV_A ?v) = n_rows" "length (HYPEV_A ?v) = n_rows"
    using l by simp_all
  have 6: "\<forall>i<n_rows. ObjectiveHealth ?v ! i =
         fadd (fadd (fmul (float_lit (48/100)) (fof_int (DIBEV_A ?v ! i)))
                    (fmul (float_lit (61/100)) (fof_int (HYPEV_A ?v ! i))))
              (noise1 ! i)"
    using r by (simp add: objective_row_def)
  show ?thesis
    by (rule exI [of _ ?v], rule exI [of _ s9], rule exI [of _ noise1],
        rule exI [of _ noise2]) (intro conjI 1 2 3 4 5 6)
qed

theorem objective_health_linear_witness:
  "np_random_ok lcg \<and>
   (\<exists>v s noise1 noise2. simulate lcg 0 = Inr (v, s) \<and>
      getitem (df v) ''ObjectiveHealth'' = Inr (FloatCol (ObjectiveHealth v)) \<and>
      map snd spec_draw_order ! 4 = Gaussian (fof_int 0) (float_lit (5/10)) \<and>
      draw_all lcg (map snd spec_draw_order) n_rows (seed lcg seed_value) =
        Inr ([Ints (EDUCP_A v), Floats (POVRATTC_A v), Ints (DIBEV_A v), Ints (HYPEV_A v),
              Floats noise1, Ints (PHSTAT_A v), Ints (PHQCAT_A v), Ints (LSATIS4_A v),
              Floats noise2], s) \<and>
      length noise1 = n_rows \<and> length (ObjectiveHealth v) = n_rows \<and>
      length (DIBEV_A v) = n_rows \<and> length (HYPEV_A v) = n_rows \<and>
      (\<forall>i<n_rows. ObjectiveHealth v ! i =
         fadd (fadd (fmul (float_lit (48/100)) (fof_int (DIBEV_A v ! i)))
                    (fmul (float_lit (61/100)) (fof_int (HYPEV_A v ! i))))
              (noise1 ! i)))"
  using objective_health_linear [OF lcg_ok, of 0] lcg_ok by (rule conjI [rotated])

text \<open>
  \<^bold>\<open>C4\<close> (PerceivedHealth). With any generator that meets NumPy's interface, every row
  of the column \<^verbatim>\<open>PerceivedHealth\<close> is
  \<open>-0.48 * ObjectiveHealth + -0.28 * POVRATTC_A + 0.01 * EDUCP_A + noise\<close> on the values
  of that row, in \<^verbatim>\<open>float64\<close> arithmetic. The noise array is a draw of its own: the
  ninth and last of the nine draws made in order from the seeded generator, one value for
  each row, from \<^verbatim>\<open>normal\<close> with mean 0 and standard deviation 0.5. It is drawn from
  the state that the draw of \<^verbatim>\<open>LSATIS4_A\<close> left, and it is not the fifth draw, which is
  the noise of \<^verbatim>\<open>ObjectiveHealth\<close>.
\<close>

theorem perceived_health_linear:
  assumes "np_random_ok R"
  shows "\<exists>v s noise1 noise2. simulate R s0 = Inr (v, s) \<and>
      getitem (df v) ''PerceivedHealth'' = Inr (FloatCol (PerceivedHealth v)) \<and>
      map snd spec_draw_order ! 8 = Gaussian (fof_int 0) (float_lit (5/10)) \<and>
      draw_all R (map snd spec_draw_order) n_rows (seed R seed_value) =
        Inr ([Ints (EDUCP_A v), Floats (POVRATTC_A v), Ints (DIBEV_A v), Ints (HYPEV_A v),
              Floats noise1, Ints (PHSTAT_A v), Ints (PHQCAT_A v), Ints (LSATIS4_A v),
              Floats noise2], s) \<and>
      length noise2 = n_rows \<and> length (PerceivedHealth v) = n_rows \<and>
      length (ObjectiveHealth v) = n_rows \<and> length (POVRATTC_A v) = n_rows \<and>
      length (EDUCP_A v) = n_rows \<and>
      (\<forall>i<n_rows. PerceivedHealth v ! i =
         fadd (fadd (fadd (fmul (fneg (float_lit (48/100))) (ObjectiveHealth v ! i))
                          (fmul (fneg (float_lit (28/100))) (POVRATTC_A v ! i)))
                    (fmul (float_lit (1/100)) (fof_int (EDUCP_A v ! i))))
              (noise2 ! i))"
  using assms
proof (rule simulate_run [where ?s0.0 = s0])
  fix educ dibev hypev phstat phqcat lsatis :: "int list"
    and s1 s2 s3 s4 s5 s6 s7 s8 s9 :: 'a
    and pov obj perc noise1 noise2
  assume d: "randint R 1 5 n_rows (seed R seed_value) = Inr (educ, s1)"
    "normal R (fof_int 2) (float_lit (5/10)) n_rows s1 = Inr (pov, s2)"
    "binomial R 1 (float_lit (1/10)) n_rows s2 = Inr (dibev, s3)"
    "binomial R 1 (float_lit (2/10)) n_rows s3 = Inr (hypev, s4)"
    "normal R (fof_int 0) (float_lit (5/10)) n_rows s4 = Inr (noise1, s5)"
    "randint R 1 6 n_rows s5 = Inr (phstat, s6)"
    "randint R 0 4 n_rows s6 = Inr (phqcat, s7)"
    "randint R 1 5 n_rows s7 = Inr (lsatis, s8)"
    "normal R (fof_int 0) (float_lit (5/10)) n_rows s8 = Inr (noise2, s9)"
    and l: "length educ = n_rows" "length pov = n_rows" "length noise2 = n_rows"
      "length obj = n_rows" "length perc = n_rows"
    and r: "\<forall>i<n_rows. perc ! i = perceived_row (obj ! i) (pov ! i) (educ ! i) (noise2 ! i)"
    and run: "simulate R s0 =
           Inr (\<lparr>EDUCP_A = educ, POVRATTC_A = pov, DIBEV_A = dibev, HYPEV_A = hypev,
                 ObjectiveHealth = obj, PHSTAT_A = phstat, PHQCAT_A = phqcat,
                 LSATIS4_A = lsatis, PerceivedHealth = perc,
                 df = [(''EDUCP_A'', IntCol educ), (''POVRATTC_A'', FloatCol pov),
                       (''ObjectiveHealth'', FloatCol obj), (''PerceivedHealth'', FloatCol perc),
                       (''PHSTAT_A'', IntCol phstat), (''PHQCAT_A'', IntCol phqcat),
                       (''LSATIS4_A'', IntCol lsatis)]\<rparr>, s9)"
  let ?v = "\<lparr>EDUCP_A = educ, POVRATTC_A = pov, DIBEV_A = dibev, HYPEV_A = hypev,
      ObjectiveHealth = obj, PHSTAT_A = phstat, PHQCAT_A = phqcat, LSATIS4_A = lsatis,
      PerceivedHealth = perc,
      df = [(''EDUCP_A'', IntCol educ), (''POVRATTC_A'', FloatCol pov),
            (''ObjectiveHealth'', FloatCol obj), (''PerceivedHealth'', FloatCol perc),
            (''PHSTAT_A'', IntCol phstat), (''PHQCAT_A'', IntCol phqcat),
            (''LSATIS4_A'', IntCol lsatis)]\<rparr>"
  have 1: "simulate R s0 = Inr (?v, s9)" by (rule run)
  have 2: "getitem (df ?v) ''PerceivedHealth'' = Inr (FloatCol (PerceivedHealth ?v))"
    by (simp add: getitem_def)
  note 3 = fifth_and_ninth_draw(2)
  have 4: "draw_all R (map snd spec_draw_order) n_rows (seed R seed_value) =
        Inr ([Ints (EDUCP_A ?v), Floats (POVRATTC_A ?v), Ints (DIBEV_A ?v), Ints (HYPEV_A ?v),
              Floats noise1, Ints (PHSTAT_A ?v), Ints (PHQCAT_A ?v), Ints (LSATIS4_A ?v),
              Floats noise2], s9)"
    using draw_all_nine [OF d] by simp
  have 5: "length noise2 = n_rows" "length (PerceivedHealth ?v) = n_rows"
    "length (ObjectiveHealth ?v) = n_rows" "length (POVRATTC_A ?v) = n_rows"
    "length (EDUCP_A ?v) = n_rows"
    using l by simp_all
  have 6: "\<forall>i<n_rows. PerceivedHealth ?v ! i =
         fadd (fadd (fadd (fmul (fneg (float_lit (48/100))) (ObjectiveHealth ?v ! i))
                          (fmul (fneg (float_lit (28/100))) (POVRATTC_A ?v ! i)))
                    (fmul (float_lit (1/100)) (fof_int (EDUCP_A ?v ! i))))
              (noise2 ! i)"
    using r by (simp add: perceived_row_def)
  show ?thesis
    by (rule exI [of _ ?v], rule exI [of _ s9], rule exI [of _ noise1],
        rule exI [of _ noise2]) (intro conjI 1 2 3 4 5 6)
qed

theorem perceived_health_linear_witness:
  "np_random_ok lcg \<and>
   (\<exists>v s noise1 noise2. simulate lcg 0 = Inr (v, s) \<and>
      getitem (df v) ''PerceivedHealth'' = Inr (FloatCol (PerceivedHealth v)) \<and>
      map snd spec_draw_order ! 8 = Gaussian (fof_int 0) (float_lit (5/10)) \<and>
      draw_all lcg (map snd spec_draw_order) n_rows (seed lcg seed_value) =
        Inr ([Ints (EDUCP_A v), Floats (POVRATTC_A v), Ints (DIBEV_A v), Ints (HYPEV_A v),
              Floats noise1, Ints (PHSTAT_A v), Ints (PHQCAT_A v), Ints (LSATIS4_A v),
              Floats noise2], s) \<and>
      length noise2 = n_rows \<and> length (PerceivedHealth v) = n_rows \<and>
      length (ObjectiveHealth v) = n_rows \<and> length (POVRATTC_A v) = n_rows \<and>
      length (EDUCP_A v) = n_rows \<and>
      (\<forall>i<n_rows. PerceivedHealth v ! i =
         fadd (fadd (fadd (fmul (fneg (float_lit (48/100))) (ObjectiveHealth v ! i))
                          (fmul (fneg (float_lit (28/100))) (POVRATTC_A v ! i)))
                    (fmul (float_lit (1/100)) (fof_int (EDUCP_A v ! i))))
              (noise2 ! i)))"
  using perceived_health_linear [OF lcg_ok, of 0] lcg_ok by (rule conjI [rotated])

subsection \<open>The Visualizer\<close>

lemma on_ok_eq_Inl: "on_ok r f = Inl e \<longleftrightarrow> r = Inl e \<or> (\<exists>v. r = Inr v \<and> f v = Inl e)"
  by (cases r) simp_all

lemma plot1_table: "plot1 L st = Inr st' \<Longrightarrow> table st' = table st"
  by (auto simp: plot1_def on_ok_eq_Inr)

lemma plot2_table: "plot2 L st = Inr st' \<Longrightarrow> table st' = table st"
  by (auto simp: plot2_def on_ok_eq_Inr)

lemma plot3_table: "plot3 L st = Inr st' \<Longrightarrow> table st' = table st"
  by (auto simp: plot3_def on_ok_eq_Inr)

lemma visualizer_InrD:
  assumes "visualizer L st = Inr st'"
  obtains st1 st2 where "plot1 L st = Inr st1" "plot2 L st1 = Inr st2"
    "plot3 L st2 = Inr st'"
  using assms by (auto simp: visualizer_def on_ok_eq_Inr)

text \<open>
  \<^bold>\<open>C7\<close> (the table is not changed). When the Visualizer completes, each of the three
  plots has completed, and the table in the state after each of them is the table the
  Visualizer was given. The script has no statement that assigns to the frame after line
  39; the plotting calls are given the frame and the names of the columns to select.
\<close>

theorem visualizer_keeps_table:
  assumes "visualizer L st = Inr st'"
  shows "\<exists>st1 st2. plot1 L st = Inr st1 \<and> plot2 L st1 = Inr st2 \<and>
           plot3 L st2 = Inr st' \<and>
           table st1 = table st \<and> table st2 = table st \<and> table st' = table st"
proof -
  from assms obtain st1 st2 where p: "plot1 L st = Inr st1" "plot2 L st1 = Inr st2"
    "plot3 L st2 = Inr st'"
    by (rule visualizer_InrD)
  from p show ?thesis
    by (auto dest!: plot1_table plot2_table plot3_table)
qed

lemma plt_call_Inl: "plt_call L c p = Inl e \<Longrightarrow> library_raises L e"
  by (auto simp: plt_call_def library_raises_def split: option.splits)

lemma drawing_Inl: "drawing L req = Inl e \<Longrightarrow> library_raises L e"
  by (auto simp: drawing_def library_raises_def split: option.splits)

lemma finish_plot_Inl: "finish_plot L t xl yl p = Inl e \<Longrightarrow> library_raises L e"
  by (auto simp: finish_plot_def on_ok_eq_Inl dest: plt_call_Inl)

lemma lmplot_Inl:
  assumes "getitem t x = Inr xc" "getitem t y = Inr yc" "getitem t h = Inr hc"
    and "lmplot L t x y h pal asp al p = Inl e"
  shows "library_raises L e"
  using assms by (auto simp: lmplot_def on_ok_eq_Inl dest: drawing_Inl)

lemma regplot_Inl:
  assumes "getitem t x = Inr xc" "getitem t y = Inr yc"
    and "regplot L t x y al p = Inl e"
  shows "library_raises L e"
  using assms by (auto simp: regplot_def on_ok_eq_Inl dest: drawing_Inl)

lemma required_columns_getitem:
  assumes "required_columns t"
  obtains pov obj perc educ where
    "getitem t ''POVRATTC_A'' = Inr (FloatCol pov)"
    "getitem t ''ObjectiveHealth'' = Inr (FloatCol obj)"
    "getitem t ''PerceivedHealth'' = Inr (FloatCol perc)"
    "getitem t ''EDUCP_A'' = Inr (IntCol educ)"
  using assms by (auto simp: required_columns_def getitem_def)

lemma plot1_Inl:
  assumes "required_columns (table st)" "plot1 L st = Inl e"
  shows "library_raises L e"
proof -
  from assms(1) obtain pov obj perc educ where g:
    "getitem (table st) ''POVRATTC_A'' = Inr (FloatCol pov)"
    "getitem (table st) ''ObjectiveHealth'' = Inr (FloatCol obj)"
    "getitem (table st) ''EDUCP_A'' = Inr (IntCol educ)"
    by (rule required_columns_getitem)
  from assms(2) show ?thesis
    unfolding plot1_def on_ok_eq_Inl
    by (auto dest: lmplot_Inl [OF g] finish_plot_Inl)
qed

lemma plot2_Inl:
  assumes "required_columns (table st)" "plot2 L st = Inl e"
  shows "library_raises L e"
proof -
  from assms(1) obtain pov obj perc educ where g:
    "getitem (table st) ''ObjectiveHealth'' = Inr (FloatCol obj)"
    "getitem (table st) ''PerceivedHealth'' = Inr (FloatCol perc)"
    by (rule required_columns_getitem)
  from assms(2) show ?thesis
    unfolding plot2_def on_ok_eq_Inl
    by (auto dest: regplot_Inl [OF g] finish_plot_Inl plt_call_Inl)
qed

lemma plot3_Inl:
  assumes "required_columns (table st)" "plot3 L st = Inl e"
  shows "library_raises L e"
proof -
  from assms(1) obtain pov obj perc educ where g:
    "getitem (table st) ''POVRATTC_A'' = Inr (FloatCol pov)"
    "getitem (table st) ''PerceivedHealth'' = Inr (FloatCol perc)"
    "getitem (table st) ''EDUCP_A'' = Inr (IntCol educ)"
    by (rule required_columns_getitem)
  from assms(2) show ?thesis
    unfolding plot3_def on_ok_eq_Inl
    by (auto dest: lmplot_Inl [OF g] finish_plot_Inl)
qed

lemma visualizer_Inl:
  assumes "required_columns (table st)" "visualizer L st = Inl e"
  shows "library_raises L e"
proof -
  from assms(2) consider "plot1 L st = Inl e"
    | st1 where "plot1 L st = Inr st1" "plot2 L st1 = Inl e"
    | st1 st2 where "plot1 L st = Inr st1" "plot2 L st1 = Inr st2" "plot3 L st2 = Inl e"
    unfolding visualizer_def on_ok_eq_Inl by blast
  then show ?thesis
  proof cases
    case 1
    with assms(1) show ?thesis by (rule plot1_Inl)
  next
    case 2
    then have "required_columns (table st1)"
      using assms(1) by (simp add: plot1_table)
    then show ?thesis using 2(2) by (rule plot2_Inl)
  next
    case 3
    then have "required_columns (table st2)"
      using assms(1) by (simp add: plot1_table plot2_table)
    then show ?thesis using 3(3) by (rule plot3_Inl)
  qed
qed

lemma sum_outcome:
  assumes "\<And>e. r = Inl e \<Longrightarrow> P e"
  shows "(\<exists>v. r = Inr v) \<or> (\<exists>e. r = Inl e \<and> P e)"
  using assms by (cases r) simp_all

lemma quiet_library_raises: "\<not> library_raises quiet_library e"
  by (simp add: library_raises_def quiet_library_def)

lemma tiny_table_required: "required_columns tiny_table"
  by (simp add: required_columns_def tiny_table_def)

lemma quiet_visualizer_completes:
  assumes "required_columns (table st)"
  shows "\<exists>st'. visualizer quiet_library st = Inr st'"
  using sum_outcome [of "visualizer quiet_library st" "library_raises quiet_library",
      OF visualizer_Inl [OF assms]] quiet_library_raises
  by auto




theorem visualizer_keeps_table_witness:
  "\<exists>st'. visualizer quiet_library \<lparr>table = tiny_table, plt = no_figures\<rparr> = Inr st' \<and>
     (\<exists>st1 st2. plot1 quiet_library \<lparr>table = tiny_table, plt = no_figures\<rparr> = Inr st1 \<and>
        plot2 quiet_library st1 = Inr st2 \<and> plot3 quiet_library st2 = Inr st' \<and>
        table st1 = tiny_table \<and> table st2 = tiny_table \<and> table st' = tiny_table)"
proof -
  have "required_columns (table \<lparr>table = tiny_table, plt = no_figures\<rparr>)"
    using tiny_table_required by simp
  from quiet_visualizer_completes [OF this]
  obtain st' where run: "visualizer quiet_library \<lparr>table = tiny_table, plt = no_figures\<rparr> = Inr st'"
    by blast
  from visualizer_keeps_table [OF run] run show ?thesis by simp
qed

lemma getitem_cong: "map_of t1 k = map_of t2 k \<Longrightarrow> getitem t1 k = getitem t2 k"
  by (simp add: getitem_def)

lemma lmplot_cong:
  assumes "getitem t1 x = getitem t2 x" "getitem t1 y = getitem t2 y"
    "getitem t1 h = getitem t2 h"
  shows "lmplot L t1 x y h pal asp al p = lmplot L t2 x y h pal asp al p"
  by (simp add: lmplot_def assms)

lemma regplot_cong:
  assumes "getitem t1 x = getitem t2 x" "getitem t1 y = getitem t2 y"
  shows "regplot L t1 x y al p = regplot L t2 x y al p"
  by (simp add: regplot_def assms)

lemma same_figures_cases:
  "same_figures r1 r2 \<longleftrightarrow>
     (\<exists>e. r1 = Inl e \<and> r2 = Inl e) \<or> (\<exists>a b. r1 = Inr a \<and> r2 = Inr b \<and> plt a = plt b)"
  by (cases r1; cases r2) (auto simp: same_figures_def)

lemma figures_of_step:
  "map_sum id plt (on_ok r (\<lambda>p'. Inr (st\<lparr>plt := p'\<rparr>))) = r"
  by (cases r) simp_all

lemma on_ok_assoc: "on_ok (on_ok r f) g = on_ok r (\<lambda>v. on_ok (f v) g)"
  by (cases r) simp_all

lemma plot1_figures:
  "map_sum id plt (plot1 L st) =
     on_ok (lmplot L (table st) ''POVRATTC_A'' ''ObjectiveHealth'' ''EDUCP_A'' ''viridis''
              (float_lit (15/10)) (float_lit (3/10)) (plt st))
       (finish_plot L ''SES Indicators and Objective Health with Regression Lines''
              ''Poverty Ratio (POVRATTC_A)'' ''Objective Health (latent)'')"
  unfolding plot1_def on_ok_assoc [symmetric] by (rule figures_of_step)

lemma plot2_figures:
  "map_sum id plt (plot2 L st) =
     on_ok (on_ok (plt_call L (PltFigure (8, 5)) (plt st))
              (regplot L (table st) ''ObjectiveHealth'' ''PerceivedHealth'' (float_lit (3/10))))
       (finish_plot L ''Objective Health Predicting Perceived Health''
              ''Objective Health'' ''Perceived Health'')"
  unfolding plot2_def on_ok_assoc [symmetric] by (rule figures_of_step)

lemma plot3_figures:
  "map_sum id plt (plot3 L st) =
     on_ok (lmplot L (table st) ''POVRATTC_A'' ''PerceivedHealth'' ''EDUCP_A'' ''coolwarm''
              (float_lit (15/10)) (float_lit (3/10)) (plt st))
       (finish_plot L ''SES Indicators and Perceived Health with Regression Lines''
              ''Poverty Ratio (POVRATTC_A)'' ''Perceived Health (latent)'')"
  unfolding plot3_def on_ok_assoc [symmetric] by (rule figures_of_step)

lemma plot1_same:
  assumes "plt st1 = plt st2"
    "getitem (table st1) ''POVRATTC_A'' = getitem (table st2) ''POVRATTC_A''"
    "getitem (table st1) ''ObjectiveHealth'' = getitem (table st2) ''ObjectiveHealth''"
    "getitem (table st1) ''EDUCP_A'' = getitem (table st2) ''EDUCP_A''"
  shows "same_figures (plot1 L st1) (plot1 L st2)"
  unfolding same_figures_def plot1_figures lmplot_cong [OF assms(2,3,4)] assms(1)
  by (rule refl)

lemma plot2_same:
  assumes "plt st1 = plt st2"
    "getitem (table st1) ''ObjectiveHealth'' = getitem (table st2) ''ObjectiveHealth''"
    "getitem (table st1) ''PerceivedHealth'' = getitem (table st2) ''PerceivedHealth''"
  shows "same_figures (plot2 L st1) (plot2 L st2)"
proof -
  have e: "regplot L (table st1) ''ObjectiveHealth'' ''PerceivedHealth'' (float_lit (3/10)) =
        regplot L (table st2) ''ObjectiveHealth'' ''PerceivedHealth'' (float_lit (3/10))"
    by (rule ext) (rule regplot_cong [OF assms(2,3)])
  show ?thesis
    unfolding same_figures_def plot2_figures assms(1) e by (rule refl)
qed

lemma plot3_same:
  assumes "plt st1 = plt st2"
    "getitem (table st1) ''POVRATTC_A'' = getitem (table st2) ''POVRATTC_A''"
    "getitem (table st1) ''PerceivedHealth'' = getitem (table st2) ''PerceivedHealth''"
    "getitem (table st1) ''EDUCP_A'' = getitem (table st2) ''EDUCP_A''"
  shows "same_figures (plot3 L st1) (plot3 L st2)"
  unfolding same_figures_def plot3_figures lmplot_cong [OF assms(2,3,4)] assms(1)
  by (rule refl)

lemma visualizer_same:
  assumes p: "plt st1 = plt st2"
    and g: "getitem (table st1) ''POVRATTC_A'' = getitem (table st2) ''POVRATTC_A''"
    "getitem (table st1) ''ObjectiveHealth'' = getitem (table st2) ''ObjectiveHealth''"
    "getitem (table st1) ''PerceivedHealth'' = getitem (table st2) ''PerceivedHealth''"
    "getitem (table st1) ''EDUCP_A'' = getitem (table st2) ''EDUCP_A''"
  shows "same_figures (visualizer L st1) (visualizer L st2)"
proof -
  from plot1_same [OF p g(1,2,4), of L]
  consider e where "plot1 L st1 = Inl e" "plot1 L st2 = Inl e"
    | a b where "plot1 L st1 = Inr a" "plot1 L st2 = Inr b" "plt a = plt b"
    unfolding same_figures_cases by blast
  then show ?thesis
  proof cases
    case 1
    then show ?thesis by (simp add: visualizer_def same_figures_def)
  next
    case 2
    have ta: "table a = table st1" and tb: "table b = table st2"
      using 2 by (simp_all add: plot1_table)
    from plot2_same [OF 2(3), of L] g ta tb
    consider e where "plot2 L a = Inl e" "plot2 L b = Inl e"
      | c d where "plot2 L a = Inr c" "plot2 L b = Inr d" "plt c = plt d"
      unfolding same_figures_cases by auto
    then show ?thesis
    proof cases
      case e: 1
      with 2 show ?thesis by (simp add: visualizer_def same_figures_def)
    next
      case cd: 2
      have tc: "table c = table st1" and td: "table d = table st2"
        using cd ta tb by (simp_all add: plot2_table)
      from plot3_same [OF cd(3), of L] g tc td
      have "same_figures (plot3 L c) (plot3 L d)" by simp
      with 2 cd show ?thesis by (simp add: visualizer_def same_figures_def)
    qed
  qed
qed

text \<open>
  \<^bold>\<open>C10\<close> (three columns are never read). If two tables agree on every column other
  than \<^verbatim>\<open>PHSTAT_A\<close>, \<^verbatim>\<open>PHQCAT_A\<close> and \<^verbatim>\<open>LSATIS4_A\<close>, then from the same pyplot state
  each plot, and the Visualizer as a whole, ends the same way on both: with the same
  exception, or with the same figures, which hold the x, y and hue data each plot was
  given.
\<close>

theorem unused_columns_not_read:
  assumes "\<forall>k. k \<notin> {''PHSTAT_A'', ''PHQCAT_A'', ''LSATIS4_A''} \<longrightarrow> map_of t1 k = map_of t2 k"
  shows "map_sum id plt (plot1 L \<lparr>table = t1, plt = p\<rparr>) =
           map_sum id plt (plot1 L \<lparr>table = t2, plt = p\<rparr>) \<and>
         map_sum id plt (plot2 L \<lparr>table = t1, plt = p\<rparr>) =
           map_sum id plt (plot2 L \<lparr>table = t2, plt = p\<rparr>) \<and>
         map_sum id plt (plot3 L \<lparr>table = t1, plt = p\<rparr>) =
           map_sum id plt (plot3 L \<lparr>table = t2, plt = p\<rparr>) \<and>
         map_sum id plt (visualizer L \<lparr>table = t1, plt = p\<rparr>) =
           map_sum id plt (visualizer L \<lparr>table = t2, plt = p\<rparr>)"
proof -
  have g: "getitem t1 ''POVRATTC_A'' = getitem t2 ''POVRATTC_A''"
    "getitem t1 ''ObjectiveHealth'' = getitem t2 ''ObjectiveHealth''"
    "getitem t1 ''PerceivedHealth'' = getitem t2 ''PerceivedHealth''"
    "getitem t1 ''EDUCP_A'' = getitem t2 ''EDUCP_A''"
  proof -
    have m: "map_of t1 ''POVRATTC_A'' = map_of t2 ''POVRATTC_A''"
      "map_of t1 ''ObjectiveHealth'' = map_of t2 ''ObjectiveHealth''"
      "map_of t1 ''PerceivedHealth'' = map_of t2 ''PerceivedHealth''"
      "map_of t1 ''EDUCP_A'' = map_of t2 ''EDUCP_A''"
      using assms by simp_all
    show "getitem t1 ''POVRATTC_A'' = getitem t2 ''POVRATTC_A''"
      "getitem t1 ''ObjectiveHealth'' = getitem t2 ''ObjectiveHealth''"
      "getitem t1 ''PerceivedHealth'' = getitem t2 ''PerceivedHealth''"
      "getitem t1 ''EDUCP_A'' = getitem t2 ''EDUCP_A''"
      by (rule getitem_cong, rule m)+
  qed
  let ?s1 = "\<lparr>table = t1, plt = p\<rparr>" and ?s2 = "\<lparr>table = t2, plt = p\<rparr>"
  have p: "plt ?s1 = plt ?s2" by simp
  have g': "getitem (table ?s1) ''POVRATTC_A'' = getitem (table ?s2) ''POVRATTC_A''"
    "getitem (table ?s1) ''ObjectiveHealth'' = getitem (table ?s2) ''ObjectiveHealth''"
    "getitem (table ?s1) ''PerceivedHealth'' = getitem (table ?s2) ''PerceivedHealth''"
    "getitem (table ?s1) ''EDUCP_A'' = getitem (table ?s2) ''EDUCP_A''"
    using g by simp_all
  from plot1_same [OF p g'(1,2,4), of L] plot2_same [OF p g'(2,3), of L]
    plot3_same [OF p g'(1,3,4), of L] visualizer_same [OF p g', of L]
  show ?thesis
    unfolding same_figures_def by (intro conjI)
qed

theorem unused_columns_not_read_witness:
  "tiny_table \<noteq> tiny_table_other \<and>
   map_sum id plt (visualizer quiet_library \<lparr>table = tiny_table, plt = no_figures\<rparr>) =
     map_sum id plt (visualizer quiet_library \<lparr>table = tiny_table_other, plt = no_figures\<rparr>)"
proof -
  have h: "\<forall>k. k \<notin> {''PHSTAT_A'', ''PHQCAT_A'', ''LSATIS4_A''} \<longrightarrow>
        map_of tiny_table k = map_of tiny_table_other k"
    by (simp add: tiny_table_def tiny_table_other_def)
  have d: "tiny_table \<noteq> tiny_table_other"
    by (simp add: tiny_table_def tiny_table_other_def)
  from unused_columns_not_read [OF h, of quiet_library no_figures] d show ?thesis
    by blast
qed

subsection \<open>Rounding keeps the order\<close>

lemma round_even_of_int [simp]: "round_even (of_int n) = n"
  by (simp add: round_even_def)

lemma round_even_bounds: "\<lfloor>x\<rfloor> \<le> round_even x" "round_even x \<le> \<lfloor>x\<rfloor> + 1"
  by (simp_all add: round_even_def Let_def)

lemma round_even_mono:
  assumes "x \<le> y"
  shows "round_even x \<le> round_even y"
proof (cases "\<lfloor>x\<rfloor> = \<lfloor>y\<rfloor>")
  case True
  then show ?thesis
    using assms by (auto simp: round_even_def Let_def)
next
  case False
  with floor_mono [OF assms] have "\<lfloor>x\<rfloor> + 1 \<le> \<lfloor>y\<rfloor>" by simp
  with round_even_bounds(2) [of x] round_even_bounds(1) [of y] show ?thesis
    by linarith
qed

lemma round_even_minus: "round_even (- x) = - round_even x"
proof (cases "x = of_int \<lfloor>x\<rfloor>")
  case True
  define n where "n = \<lfloor>x\<rfloor>"
  have x: "x = of_int n" using True by (simp add: n_def)
  have "round_even (of_int (- n)) = - n" by (rule round_even_of_int)
  then show ?thesis unfolding x by simp
next
  case False
  then have c: "\<lfloor>- x\<rfloor> = - \<lfloor>x\<rfloor> - 1"
    by (simp add: floor_minus ceiling_altdef)
  show ?thesis
    unfolding round_even_def Let_def c by (auto simp: algebra_simps)
qed

lemma ulp_exp_minus [simp]: "ulp_exp (- q) = ulp_exp q"
  by (simp add: ulp_exp_def)

lemma rnd_minus: "rnd (- q) = - rnd q"
  by (simp add: rnd_def round_even_minus)

lemma rnd_0 [simp]: "rnd 0 = 0"
  by (simp add: rnd_def)

lemma rnd_nonneg:
  assumes "0 \<le> q"
  shows "0 \<le> rnd q"
proof -
  have "0 \<le> q / 2 powi ulp_exp q" using assms by simp
  from round_even_mono [OF this] have "0 \<le> round_even (q / 2 powi ulp_exp q)"
    using round_even_of_int [of 0] by simp
  then show ?thesis by (simp add: rnd_def)
qed

lemma ilog2_mono:
  assumes "0 < x" "x \<le> y"
  shows "ilog2 x \<le> ilog2 y"
proof (rule ccontr)
  assume "\<not> ilog2 x \<le> ilog2 y"
  then have "ilog2 y + 1 \<le> ilog2 x" by simp
  then have "(2::rat) powi (ilog2 y + 1) \<le> 2 powi ilog2 x"
    by (intro power_int_increasing) simp_all
  moreover have "2 powi ilog2 x \<le> x" "y < 2 powi (ilog2 y + 1)"
    using ilog2_bounds [of x] ilog2_bounds [of y] assms by simp_all
  ultimately show False using assms(2) by linarith
qed

lemma pow2_grid:
  assumes "e \<le> m"
  shows "(2::rat) powi m = of_int (2 ^ nat (m - e)) * 2 powi e"
proof -
  have "(2::rat) powi m = 2 powi (m - e) * 2 powi e"
    by (simp flip: power_int_add)
  also have "(2::rat) powi (m - e) = 2 ^ nat (m - e)"
    using assms by (simp add: power_int_nonneg_exp)
  finally show ?thesis by simp
qed

lemma rnd_grid_le:
  assumes "q \<noteq> 0" "q \<le> 2 powi m" "ulp_exp q \<le> m"
  shows "rnd q \<le> 2 powi m"
proof -
  define e where "e = ulp_exp q"
  note g = pow2_grid [OF assms(3), folded e_def]
  have "q / 2 powi e \<le> of_int (2 ^ nat (m - e))"
    using assms(2) unfolding g by (simp add: field_simps)
  from round_even_mono [OF this]
  have "of_int (round_even (q / 2 powi e)) * 2 powi e \<le> (of_int (2 ^ nat (m - e)) :: rat) * 2 powi e"
    by (intro mult_right_mono) (simp_all only: round_even_of_int of_int_le_iff zero_le_power_int zero_le_numeral)
  then show ?thesis
    using assms(1) unfolding g by (simp add: rnd_def e_def)
qed

lemma rnd_grid_ge:
  assumes "q \<noteq> 0" "2 powi m \<le> q" "ulp_exp q \<le> m"
  shows "2 powi m \<le> rnd q"
proof -
  define e where "e = ulp_exp q"
  note g = pow2_grid [OF assms(3), folded e_def]
  have "of_int (2 ^ nat (m - e)) \<le> q / 2 powi e"
    using assms(2) unfolding g by (simp add: field_simps)
  from round_even_mono [OF this]
  have "(of_int (2 ^ nat (m - e)) :: rat) * 2 powi e \<le> of_int (round_even (q / 2 powi e)) * 2 powi e"
    by (intro mult_right_mono) (simp_all only: round_even_of_int of_int_le_iff zero_le_power_int zero_le_numeral)
  then show ?thesis
    using assms(1) unfolding g by (simp add: rnd_def e_def)
qed

lemma rnd_mono_pos:
  assumes "0 < x" "x \<le> y"
  shows "rnd x \<le> rnd y"
proof -
  have y: "0 < y" using assms by simp
  have xe: "ulp_exp x = max (ilog2 x - 52) (- 1074)" and ye: "ulp_exp y = max (ilog2 y - 52) (- 1074)"
    using assms y by (simp_all add: ulp_exp_def)
  have k: "ilog2 x \<le> ilog2 y" using assms by (rule ilog2_mono)
  show ?thesis
  proof (cases "ulp_exp x = ulp_exp y")
    case True
    have "x / 2 powi ulp_exp x \<le> y / 2 powi ulp_exp x"
      using assms(2) by (simp add: divide_right_mono)
    from round_even_mono [OF this]
    have "of_int (round_even (x / 2 powi ulp_exp x)) * 2 powi ulp_exp x
          \<le> (of_int (round_even (y / 2 powi ulp_exp x)) :: rat) * 2 powi ulp_exp x"
      by (intro mult_right_mono) simp_all
    then show ?thesis
      using assms y True by (simp add: rnd_def)
  next
    case False
    with k xe ye have lt: "ilog2 x + 1 \<le> ilog2 y" and ey: "ulp_exp y \<le> ilog2 y"
      and ex: "ulp_exp x \<le> ilog2 y"
      by (auto simp: max_def split: if_splits)
    have "x < 2 powi (ilog2 x + 1)" using ilog2_bounds [OF assms(1)] by simp
    also have "\<dots> \<le> 2 powi ilog2 y"
      using lt by (intro power_int_increasing) simp_all
    finally have xb: "x \<le> 2 powi ilog2 y" by simp
    have yb: "2 powi ilog2 y \<le> y" using ilog2_bounds [OF y] by simp
    have "rnd x \<le> 2 powi ilog2 y"
      using assms(1) xb ex by (intro rnd_grid_le) simp_all
    also have "\<dots> \<le> rnd y"
      using y yb ey by (intro rnd_grid_ge) simp_all
    finally show ?thesis .
  qed
qed

lemma rnd_mono:
  assumes "x \<le> y"
  shows "rnd x \<le> rnd y"
proof -
  consider "0 < x" | "x \<le> 0" "0 \<le> y" | "y < 0" by linarith
  then show ?thesis
  proof cases
    case 1
    then show ?thesis using assms by (rule rnd_mono_pos)
  next
    case 2
    then have "0 \<le> rnd (- x)" "0 \<le> rnd y" by (simp_all add: rnd_nonneg)
    then show ?thesis by (simp add: rnd_minus)
  next
    case 3
    then have "rnd (- y) \<le> rnd (- x)" using assms by (intro rnd_mono_pos) simp_all
    then show ?thesis by (simp add: rnd_minus)
  qed
qed

lemma max_float_pos: "0 < max_float"
  by (simp add: max_float_def)

lemma fround_0: "fround 0 = Fin 0"
  using max_float_pos by (simp add: fround_def)

lemma round_even_numeral [simp]: "round_even (numeral n) = numeral n"
  using round_even_of_int [of "numeral n"] by simp

lemma fround_cases:
  "max_float < rnd q \<and> fround q = PInf \<or>
   rnd q < - max_float \<and> fround q = NInf \<or>
   \<bar>rnd q\<bar> \<le> max_float \<and> is_finite (fround q) \<and> fval (fround q) = rnd q"
  using max_float_pos by (auto simp: fround_def Let_def)

lemma fle_fround:
  assumes "q \<le> q'"
  shows "fle (fround q) (fround q')"
  using rnd_mono [OF assms] fround_cases [of q] fround_cases [of q'] max_float_pos
  by (auto simp: fle_def)

lemma fle_trans: "fle a b \<Longrightarrow> fle b c \<Longrightarrow> fle a c"
  by (cases a; cases b; cases c) (auto simp: fle_def)

lemma fle_refl: "a \<noteq> NaN \<Longrightarrow> fle a a"
  by (cases a) (auto simp: fle_def)

lemma fround_not_nan [simp]: "fround q \<noteq> NaN"
  using fround_cases [of q] by auto

lemma fadd_finite:
  assumes "is_finite x" "is_finite z"
  shows "fle (fadd x z) (fround (fval x + fval z)) \<and> fle (fround (fval x + fval z)) (fadd x z)"
proof (cases "fval x + fval z = 0")
  case True
  then have "fround (fval x + fval z) = Fin 0" by (simp only: fround_0)
  moreover have "fadd x z = NZero \<or> fadd x z = Fin 0"
    using assms True by (cases x; cases z) (auto simp: fadd_def)
  ultimately show ?thesis by (auto simp: fle_def)
next
  case False
  then have "fadd x z = fround (fval x + fval z)"
    using assms by (cases x; cases z) (auto simp: fadd_def)
  then show ?thesis by (simp add: fle_refl)
qed

lemma fmul_finite:
  assumes "is_finite x" "is_finite z"
  shows "fle (fmul x z) (fround (fval x * fval z)) \<and> fle (fround (fval x * fval z)) (fmul x z)"
proof (cases "fval x * fval z = 0")
  case True
  then have "fround (fval x * fval z) = Fin 0" by (simp only: fround_0)
  moreover have "fmul x z = NZero \<or> fmul x z = Fin 0"
    using assms True by (cases x; cases z) (auto simp: fmul_def)
  ultimately show ?thesis by (auto simp: fle_def)
next
  case False
  then have "fmul x z = fround (fval x * fval z)"
    using assms by (cases x; cases z) (auto simp: fmul_def)
  then show ?thesis by (simp add: fle_refl)
qed

lemma fadd_mono_finite:
  assumes "is_finite x" "is_finite x'" "is_finite z" "fval x \<le> fval x'"
  shows "fle (fadd x z) (fadd x' z)"
proof -
  have "fle (fround (fval x + fval z)) (fround (fval x' + fval z))"
    using assms(4) by (intro fle_fround) simp
  with fadd_finite [OF assms(1,3)] fadd_finite [OF assms(2,3)] show ?thesis
    by (blast intro: fle_trans)
qed

lemma fadd_not_nan:
  assumes "x \<noteq> NaN" "is_finite z"
  shows "fadd x z \<noteq> NaN"
proof (cases "is_finite x")
  case True
  from fadd_finite [OF True assms(2)] show ?thesis by (auto simp: fle_def)
next
  case False
  then show ?thesis using assms by (cases x; cases z) (auto simp: fadd_def)
qed

lemma fadd_mono:
  assumes "fle x x'" "is_finite z"
  shows "fle (fadd x z) (fadd x' z)"
proof -
  have nn: "x \<noteq> NaN" "x' \<noteq> NaN" using assms(1) by (auto simp: fle_def)
  note r = fadd_not_nan [OF nn(1) assms(2)] fadd_not_nan [OF nn(2) assms(2)]
  consider "x = NInf" | "x' = PInf" | "is_finite x" "is_finite x'" "fval x \<le> fval x'"
    using assms(1) by (auto simp: fle_def)
  then show ?thesis
  proof cases
    case 1
    then have "fadd x z = NInf" using assms(2) by (cases z) (auto simp: fadd_def)
    then show ?thesis using r by (simp add: fle_def)
  next
    case 2
    then have "fadd x' z = PInf" using assms(2) by (cases z) (auto simp: fadd_def)
    then show ?thesis using r by (simp add: fle_def)
  next
    case 3
    then show ?thesis using assms(2) by (intro fadd_mono_finite)
  qed
qed

lemma fmul_antimono:
  assumes "is_finite c" "fval c \<le> 0" "is_finite x" "is_finite x'" "fval x \<le> fval x'"
  shows "fle (fmul c x') (fmul c x)"
proof -
  have "fval c * fval x' \<le> fval c * fval x"
    using assms(2,5) by (rule mult_left_mono_neg [rotated])
  then have "fle (fround (fval c * fval x')) (fround (fval c * fval x))"
    by (rule fle_fround)
  with fmul_finite [OF assms(1,3)] fmul_finite [OF assms(1,4)] show ?thesis
    by (blast intro: fle_trans)
qed

lemma rnd_max_float: "rnd max_float = max_float"
  by (simp add: rnd_eval [where k = 1023] max_float_def)

lemma rnd_bounded:
  assumes "\<bar>q\<bar> \<le> max_float"
  shows "\<bar>rnd q\<bar> \<le> max_float"
proof -
  have "rnd q \<le> rnd max_float" "rnd (- max_float) \<le> rnd q"
    using assms by (auto intro!: rnd_mono)
  then show ?thesis by (simp add: rnd_minus rnd_max_float)
qed

lemma fround_bounded:
  assumes "\<bar>q\<bar> \<le> max_float"
  shows "is_finite (fround q) \<and> \<bar>fval (fround q)\<bar> \<le> max_float"
  using rnd_bounded [OF assms] fround_cases [of q] by auto

lemma finite_float64_bounded:
  assumes "finite_float64 x"
  shows "is_finite x \<and> \<bar>fval x\<bar> \<le> max_float"
proof (cases x)
  case (Fin q)
  with assms have "fround q = Fin q" by (simp add: finite_float64_def)
  with fround_cases [of q] Fin show ?thesis by auto
qed (use assms max_float_pos in \<open>auto simp: finite_float64_def\<close>)

lemma fmul_small_finite:
  assumes "is_finite c" "\<bar>fval c\<bar> \<le> 1" "is_finite x" "\<bar>fval x\<bar> \<le> max_float"
  shows "is_finite (fmul c x)"
proof -
  have "\<bar>fval c * fval x\<bar> \<le> 1 * max_float"
    unfolding abs_mult using assms(2,4) by (intro mult_mono) simp_all
  then have "is_finite (fround (fval c * fval x))"
    using fround_bounded by simp
  moreover have "fmul c x = fround (fval c * fval x) \<or> fmul c x = NZero \<or> fmul c x = Fin 0"
    using assms(1,3) by (cases c; cases x) (auto simp: fmul_def)
  ultimately show ?thesis by auto
qed

lemma lit_048: "float_lit (48/100) = Fin (1080863910568919 / 2251799813685248)"
  by (simp add: float_lit_def fround_def rnd_eval [where k = "-2"] round_even_def max_float_def Let_def)

lemma lit_028: "float_lit (28/100) = Fin (1261007895663739 / 4503599627370496)"
  by (simp add: float_lit_def fround_def rnd_eval [where k = "-2"] round_even_def max_float_def Let_def)

lemma lit_001: "float_lit (1/100) = Fin (5764607523034235 / 576460752303423488)"
  by (simp add: float_lit_def fround_def rnd_eval [where k = "-7"] round_even_def max_float_def Let_def)

lemma fof_int_int64:
  assumes "- (2 ^ 63) \<le> i" "i < 2 ^ 63"
  shows "is_finite (fof_int i) \<and> \<bar>fval (fof_int i)\<bar> \<le> max_float"
proof -
  have "\<bar>i\<bar> \<le> 2 ^ 63" using assms by simp
  then have "(of_int \<bar>i\<bar> :: rat) \<le> of_int (2 ^ 63)" by (simp only: of_int_le_iff)
  also have "\<dots> \<le> max_float" by (simp add: max_float_def)
  finally show ?thesis
    unfolding fof_int_def by (intro fround_bounded) simp
qed

subsection \<open>PerceivedHealth as a function of ObjectiveHealth\<close>

lemma round_even_neg_numeral [simp]: "round_even (- numeral n) = - numeral n"
  using round_even_of_int [of "- numeral n"] by simp

lemma fround_eval:
  assumes "2 powi k \<le> \<bar>q\<bar>" "\<bar>q\<bar> < 2 powi (k + 1)"
    and "r = of_int (round_even (q / 2 powi max (k - 52) (- 1074))) * 2 powi max (k - 52) (- 1074)"
    and "\<bar>r\<bar> \<le> max_float" "r \<noteq> 0"
  shows "fround q = Fin r"
  using assms(4,5) unfolding fround_def rnd_eval [OF assms(1,2) refl] assms(3) [symmetric] Let_def
  by auto

lemma ce_A: "fmul (Fin (- (1080863910568919 / 2251799813685248))) (Fin 1) =
    Fin (- (1080863910568919 / 2251799813685248))"
  by (simp add: fmul_def fround_eval [where k = "-2"] max_float_def)

lemma ce_B: "fmul (Fin (- (1080863910568919 / 2251799813685248)))
      (Fin (4503599627370497 / 4503599627370496)) =
    Fin (- (4323455642275677 / 9007199254740992))"
  by (simp add: fmul_def fround_eval [where k = "-2"] max_float_def round_even_def Let_def)

lemma ce_C: "fmul (Fin (- (1261007895663739 / 4503599627370496))) (Fin 2) =
    Fin (- (1261007895663739 / 2251799813685248))"
  by (simp add: fmul_def fround_eval [where k = "-1"] max_float_def)

lemma ce_D: "fadd (Fin (- (1080863910568919 / 2251799813685248)))
      (Fin (- (1261007895663739 / 2251799813685248))) =
    Fin (- (1170935903116329 / 1125899906842624))"
  by (simp add: fadd_def fround_eval [where k = 0] max_float_def round_even_def Let_def)

lemma ce_E: "fadd (Fin (- (4323455642275677 / 9007199254740992)))
      (Fin (- (1261007895663739 / 2251799813685248))) =
    Fin (- (1170935903116329 / 1125899906842624))"
  by (simp add: fadd_def fround_eval [where k = 0] max_float_def round_even_def Let_def)

lemma fof_int_1: "fof_int 1 = Fin 1"
  by (simp add: fof_int_def fround_eval [where k = 0] max_float_def)

lemma ce_F: "fmul (Fin (5764607523034235 / 576460752303423488)) (Fin 1) =
    Fin (5764607523034235 / 576460752303423488)"
  by (simp add: fmul_def fround_eval [where k = "-7"] max_float_def)

lemma ce_G: "fadd (Fin (- (1170935903116329 / 1125899906842624)))
      (Fin (5764607523034235 / 576460752303423488)) =
    Fin (- (4638707616191611 / 4503599627370496))"
  by (simp add: fadd_def fround_eval [where k = 0] max_float_def round_even_def Let_def)

lemma ce_H: "fadd (Fin (- (4638707616191611 / 4503599627370496))) (Fin 0) =
    Fin (- (4638707616191611 / 4503599627370496))"
  by (simp add: fadd_def fround_eval [where k = 0] max_float_def)

lemma fneg_Fin: "q \<noteq> 0 \<Longrightarrow> fneg (Fin q) = Fin (- q)"
  by (simp add: fneg_def)

lemma perceived_row_at_1:
  "perceived_row (Fin 1) (Fin 2) 1 (Fin 0) = Fin (- (4638707616191611 / 4503599627370496))"
  unfolding perceived_row_def lit_048 lit_028 lit_001 fof_int_1
  by (simp only: fneg_Fin ce_A ce_C ce_D ce_F ce_G ce_H)

lemma perceived_row_above_1:
  "perceived_row (Fin (4503599627370497 / 4503599627370496)) (Fin 2) 1 (Fin 0) =
     Fin (- (4638707616191611 / 4503599627370496))"
  unfolding perceived_row_def lit_048 lit_028 lit_001 fof_int_1
  by (simp only: fneg_Fin ce_B ce_C ce_E ce_F ce_G ce_H)

text \<open>
  \<^bold>\<open>C9\<close> (PerceivedHealth strictly decreasing in ObjectiveHealth). The claim holds
  for the exact expression, but lines 23--28 are \<^verbatim>\<open>float64\<close> arithmetic and each product
  and sum is rounded. With \<^verbatim>\<open>POVRATTC_A\<close> = 2.0, \<^verbatim>\<open>EDUCP_A\<close> = 1 and noise 0.0, the rows
  with \<^verbatim>\<open>ObjectiveHealth\<close> = 1.0 and with the next \<^verbatim>\<open>float64\<close> above it, \<open>1 + 2^-52\<close>,
  get the same \<^verbatim>\<open>PerceivedHealth\<close>: the two products differ in their last place, and
  the sum with \<open>-0.28 * 2.0\<close> rounds both to the same value.
\<close>

theorem perceived_health_strict_counterexample:
  "flt (Fin 1) (Fin (4503599627370497 / 4503599627370496)) \<and>
   perceived_row (Fin (4503599627370497 / 4503599627370496)) (Fin 2) 1 (Fin 0) =
     perceived_row (Fin 1) (Fin 2) 1 (Fin 0) \<and>
   \<not> flt (perceived_row (Fin (4503599627370497 / 4503599627370496)) (Fin 2) 1 (Fin 0))
          (perceived_row (Fin 1) (Fin 2) 1 (Fin 0))"
  unfolding perceived_row_at_1 perceived_row_above_1
  by (simp add: flt_def fle_def)

text \<open>
  \<^bold>\<open>C9\<close>, amended. With the noise, \<^verbatim>\<open>POVRATTC_A\<close> and \<^verbatim>\<open>EDUCP_A\<close> of a row held
  fixed (finite \<^verbatim>\<open>float64\<close> values, \<^verbatim>\<open>EDUCP_A\<close> an \<^verbatim>\<open>int64\<close>), \<^verbatim>\<open>PerceivedHealth\<close>
  is non-increasing in \<^verbatim>\<open>ObjectiveHealth\<close>: a row with a higher finite
  \<^verbatim>\<open>ObjectiveHealth\<close> never gets a higher \<^verbatim>\<open>PerceivedHealth\<close>. The product by
  \<open>-0.48\<close> reverses the order and every rounding and every sum keeps it.
\<close>

theorem perceived_health_nonincreasing:
  assumes "finite_float64 oh" "finite_float64 oh'" "fle oh oh'"
    and "finite_float64 pov" "finite_float64 e"
    and "- (2 ^ 63) \<le> educ" "educ < 2 ^ 63"
  shows "fle (perceived_row oh' pov educ e) (perceived_row oh pov educ e)"
proof -
  note b = finite_float64_bounded
  have c1: "is_finite (fneg (float_lit (48/100)))" "fval (fneg (float_lit (48/100))) \<le> 0"
    unfolding lit_048 by (simp_all add: fneg_def)
  have c2: "is_finite (fneg (float_lit (28/100)))" "\<bar>fval (fneg (float_lit (28/100)))\<bar> \<le> 1"
    unfolding lit_028 by (simp_all add: fneg_def)
  have c3: "is_finite (float_lit (1/100))" "\<bar>fval (float_lit (1/100))\<bar> \<le> 1"
    unfolding lit_001 by simp_all
  have le: "fval oh \<le> fval oh'"
    using assms(3) b [OF assms(1)] b [OF assms(2)] by (auto simp: fle_def)
  have t1: "fle (fmul (fneg (float_lit (48/100))) oh') (fmul (fneg (float_lit (48/100))) oh)"
    using c1 b [OF assms(1)] b [OF assms(2)] le by (intro fmul_antimono) simp_all
  have t2: "is_finite (fmul (fneg (float_lit (28/100))) pov)"
    using c2 b [OF assms(4)] by (intro fmul_small_finite) simp_all
  have t3: "is_finite (fmul (float_lit (1/100)) (fof_int educ))"
    using c3 fof_int_int64 [OF assms(6,7)] by (intro fmul_small_finite) simp_all
  have t4: "is_finite e" using b [OF assms(5)] by simp
  show ?thesis
    unfolding perceived_row_def
    by (intro fadd_mono t1 t2 t3 t4)
qed

lemma finite_float64_0: "finite_float64 (Fin 0)"
  by (simp add: finite_float64_def fround_0)

lemma finite_float64_1: "finite_float64 (Fin 1)"
  by (simp add: finite_float64_def fround_eval [where k = 0] max_float_def)

lemma finite_float64_2: "finite_float64 (Fin 2)"
  by (simp add: finite_float64_def fround_eval [where k = 1] max_float_def)

lemma finite_float64_above_1: "finite_float64 (Fin (4503599627370497 / 4503599627370496))"
  by (simp add: finite_float64_def fround_eval [where k = 0] max_float_def)

theorem perceived_health_nonincreasing_witness:
  "finite_float64 (Fin 0) \<and> finite_float64 (Fin 1) \<and> fle (Fin 0) (Fin 1) \<and>
   finite_float64 (Fin 2) \<and> - (2 ^ 63) \<le> (1::int) \<and> (1::int) < 2 ^ 63 \<and>
   fle (perceived_row (Fin 1) (Fin 2) 1 (Fin 0)) (perceived_row (Fin 0) (Fin 2) 1 (Fin 0))"
proof -
  have le: "fle (Fin 0) (Fin 1)" by (simp add: fle_def)
  have r: "- (2 ^ 63) \<le> (1::int)" "(1::int) < 2 ^ 63" by simp_all
  from perceived_health_nonincreasing [OF finite_float64_0 finite_float64_1 le
      finite_float64_2 finite_float64_0 r]
  show ?thesis
    using finite_float64_0 finite_float64_1 finite_float64_2 le r by (intro conjI)
qed

end
